theory Spec2Isabelle
  imports Main
begin

section \<open>Strings, paths and files\<close>

text \<open>
  The program is \<^verbatim>\<open>appyt.py\<close>: a Streamlit page that stores an uploaded video under
  \<^verbatim>\<open>uploads/\<close>, starts \<^verbatim>\<open>ffmpeg\<close> as a child process that pushes the video to an RTMP
  endpoint, relays the child's output into a bounded log and stops the child on request.

  Python \<^verbatim>\<open>str\<close> and \<^verbatim>\<open>bytes\<close> values are modelled as HOL strings (lists of characters);
  the program only concatenates and compares them. A path is the string \<^verbatim>\<open>str(path)\<close>. The
  filesystem is a partial map from paths to file contents.
\<close>

type_synonym path = string
type_synonym bytes = string
type_synonym filesystem = "path \<rightharpoonup> bytes"

text \<open>
  An exception that no handler of the program catches leaves the function it arises in: an
  error of \<^verbatim>\<open>Popen\<close> other than \<^verbatim>\<open>FileNotFoundError\<close>, or an exception outside the class
  \<^verbatim>\<open>Exception\<close> (such as \<^verbatim>\<open>SystemExit\<close> or \<^verbatim>\<open>KeyboardInterrupt\<close>) raised by a callback.
\<close>

datatype uncaught = Uncaught_OSError | Uncaught_BaseException

text \<open>\<^verbatim>\<open>' '.join(cmd)\<close>.\<close>

fun join_sp :: "string list \<Rightarrow> string" where
  "join_sp [] = []"
| "join_sp [x] = x"
| "join_sp (x # y # ys) = x @ '' '' @ join_sp (y # ys)"

text \<open>\<^verbatim>\<open>xs[-n:]\<close> for a positive \<open>n\<close>: the last \<open>n\<close> elements, all of them when there are fewer.\<close>

definition last_n :: "nat \<Rightarrow> 'a list \<Rightarrow> 'a list" where
  "last_n n xs = drop (length xs - n) xs"

section \<open>The encoder command (\<^verbatim>\<open>start_ffmpeg\<close>, lines 105 to 119)\<close>

definition output_url :: "string \<Rightarrow> string" where
  "output_url stream_key = ''rtmp://a.rtmp.youtube.com/live2/'' @ stream_key"

definition scale_arg :: "bool \<Rightarrow> string list" where
  "scale_arg is_shorts = (if is_shorts then [''-vf'', ''scale=720:1280''] else [])"

definition ffmpeg_cmd :: "string \<Rightarrow> string \<Rightarrow> bool \<Rightarrow> string list" where
  "ffmpeg_cmd video_path stream_key is_shorts =
     [''ffmpeg'',
      ''-re'',
      ''-stream_loop'', ''-1'',
      ''-i'', video_path,
      ''-c:v'', ''libx264'', ''-preset'', ''veryfast'', ''-b:v'', ''2500k'',
      ''-maxrate'', ''2500k'', ''-bufsize'', ''5000k'',
      ''-g'', ''60'', ''-keyint_min'', ''60'',
      ''-c:a'', ''aac'', ''-b:a'', ''128k'']
     @ scale_arg is_shorts
     @ [''-f'', ''flv'',
        output_url stream_key]"

section \<open>Session state, environment and the log (\<^verbatim>\<open>main\<close>, lines 222 to 232)\<close>

text \<open>
  A child process handle is the identity of a \<^verbatim>\<open>Popen\<close> object. What the operating system
  answers during one run of \<^verbatim>\<open>main\<close> is an input of the model: the wall clock read by
  \<^verbatim>\<open>time.strftime\<close>, the result of the \<^verbatim>\<open>ffmpeg -version\<close> probe, of \<^verbatim>\<open>Popen\<close>, of
  \<^verbatim>\<open>poll\<close>, and whether \<^verbatim>\<open>terminate\<close>, \<^verbatim>\<open>wait\<close> and \<^verbatim>\<open>kill\<close> raise.
\<close>

type_synonym handle = nat

datatype spawn_result = Spawned handle | FileNotFoundError | OtherOSError

record environment =
  clock :: "nat \<Rightarrow> string"
  ffmpeg_available :: bool
  popen :: spawn_result
  poll_is_None :: "handle \<Rightarrow> bool"
  terminate_raises :: "string option"
  wait_raises :: bool
  kill_raises :: "string option"

text \<open>
  \<^verbatim>\<open>st.session_state\<close> holds two keys. \<^verbatim>\<open>"logs"\<close> is absent until the first append.
  \<^verbatim>\<open>"ffmpeg_proc"\<close> is absent, or holds \<^verbatim>\<open>None\<close> (after a stop), or a handle.
\<close>

datatype proc_entry = Key_absent | Value "handle option"

record session_state =
  session_logs :: "string list option"
  session_ffmpeg_proc :: proc_entry

text \<open>\<^verbatim>\<open>st.session_state.get("ffmpeg_proc", None)\<close>.\<close>

definition get_ffmpeg_proc :: "session_state \<Rightarrow> handle option" where
  "get_ffmpeg_proc s = (case session_ffmpeg_proc s of Key_absent \<Rightarrow> None | Value v \<Rightarrow> v)"

datatype ui_message = St_error string | St_warning string | St_info string | St_success string

datatype os_call =
  Popen "string list" | Start_reader_thread handle
  | Terminate handle | Wait handle nat | Kill handle

text \<open>
  The state of one run of \<^verbatim>\<open>main\<close>: the session state, the list bound to the local variable
  \<^verbatim>\<open>logs\<close> (the closure of \<^verbatim>\<open>append_log\<close> appends to it and never trims it), the number of
  clock readings so far, the messages shown to the user and the calls made on child processes.
\<close>

record run =
  session :: session_state
  logs :: "string list"
  clock_reads :: nat
  shown :: "ui_message list"
  os_calls :: "os_call list"

text \<open>\<^verbatim>\<open>logs = st.session_state.get("logs", [])\<close> at line 222.\<close>

definition begin_run :: "session_state \<Rightarrow> run" where
  "begin_run s =
     \<lparr>session = s,
      logs = (case session_logs s of None \<Rightarrow> [] | Some l \<Rightarrow> l),
      clock_reads = 0, shown = [], os_calls = []\<rparr>"

definition log_line :: "string \<Rightarrow> string \<Rightarrow> string" where
  "log_line stamp msg = ''['' @ stamp @ ''] '' @ msg"

text \<open>
  \<^verbatim>\<open>append_log\<close> (lines 223 to 228): the stamped line is appended to \<^verbatim>\<open>logs\<close>, and the last
  200 entries of \<^verbatim>\<open>logs\<close> become the stored buffer. Drawing the buffer in the log box is not
  part of the model.
\<close>

definition append_log :: "environment \<Rightarrow> string \<Rightarrow> run \<Rightarrow> run" where
  "append_log e msg r =
     (let logs' = logs r @ [log_line (clock e (clock_reads r)) msg];
          logs_trimmed = last_n 200 logs'
      in r\<lparr>logs := logs', clock_reads := Suc (clock_reads r),
            session := (session r)\<lparr>session_logs := Some logs_trimmed\<rparr>\<rparr>)"

definition show_message :: "ui_message \<Rightarrow> run \<Rightarrow> run" where
  "show_message m r = r\<lparr>shown := shown r @ [m]\<rparr>"

definition os_call :: "os_call \<Rightarrow> run \<Rightarrow> run" where
  "os_call c r = r\<lparr>os_calls := os_calls r @ [c]\<rparr>"

section \<open>Starting the encoder (\<^verbatim>\<open>start_ffmpeg\<close>, and \<^verbatim>\<open>main\<close>, lines 241 to 260)\<close>

text \<open>
  \<^verbatim>\<open>start_ffmpeg\<close> logs the command, calls \<^verbatim>\<open>Popen\<close> and catches \<^verbatim>\<open>FileNotFoundError\<close>
  only: any other error of \<^verbatim>\<open>Popen\<close> leaves the function as an exception (\<open>Inl\<close>). After a
  successful spawn it starts the reader thread; what that thread appends later, concurrently
  with the runs of \<^verbatim>\<open>main\<close>, is outside this model.
\<close>

definition missing_binary_message :: string where
  "missing_binary_message =
     ''Error: ffmpeg tidak ditemukan. Pastikan ffmpeg terinstall dan ada di PATH.''"

definition start_ffmpeg ::
  "environment \<Rightarrow> string \<Rightarrow> string \<Rightarrow> bool \<Rightarrow> run \<Rightarrow> (uncaught + handle option) \<times> run" where
  "start_ffmpeg e video_path stream_key is_shorts r =
     (let cmd = ffmpeg_cmd video_path stream_key is_shorts;
          r1 = append_log e (''Menjalankan ffmpeg: '' @ join_sp cmd) r;
          r2 = os_call (Popen cmd) r1
      in case popen e of
           FileNotFoundError \<Rightarrow> (Inr None, append_log e missing_binary_message r2)
         | OtherOSError \<Rightarrow> (Inl Uncaught_OSError, r2)
         | Spawned proc \<Rightarrow> (Inr (Some proc), os_call (Start_reader_thread proc) r2))"

text \<open>Lines 254 to 260: the branch that starts a new job.\<close>

definition start_new_job ::
  "environment \<Rightarrow> string \<Rightarrow> string \<Rightarrow> bool \<Rightarrow> run \<Rightarrow> uncaught option \<times> run" where
  "start_new_job e video_path stream_key is_shorts r =
     (let r1 = append_log e (''Memulai streaming: '' @ video_path) r
      in case start_ffmpeg e video_path stream_key is_shorts r1 of
           (Inl x, r2) \<Rightarrow> (Some x, r2)
         | (Inr (Some proc), r2) \<Rightarrow>
             (None, show_message (St_success ''Streaming dimulai.'')
                      (r2\<lparr>session := (session r2)\<lparr>session_ffmpeg_proc := Value (Some proc)\<rparr>\<rparr>))
         | (Inr None, r2) \<Rightarrow>
             (None, show_message (St_error ''Gagal menjalankan ffmpeg. Periksa log.'') r2))"

definition already_running_warning :: ui_message where
  "already_running_warning =
     St_warning ''Proses ffmpeg sedang berjalan. Hentikan dulu sebelum memulai baru.''"

text \<open>
  The body of \<^verbatim>\<open>if start_btn:\<close>. \<^verbatim>\<open>video_path\<close> is \<^verbatim>\<open>None\<close> or a string; \<^verbatim>\<open>not video_path\<close>
  holds for \<^verbatim>\<open>None\<close> and for the empty string.
\<close>

definition start_clicked ::
  "environment \<Rightarrow> string option \<Rightarrow> string \<Rightarrow> bool \<Rightarrow> run \<Rightarrow> uncaught option \<times> run" where
  "start_clicked e video_path stream_key is_shorts r =
     (if video_path = None \<or> video_path = Some []
      then (None, show_message
              (St_error ''Pilih video atau upload dulu sebelum memulai streaming.'') r)
      else if stream_key = []
      then (None, show_message (St_error ''Masukkan Stream Key YouTube.'') r)
      else if \<not> ffmpeg_available e
      then (None, show_message (St_error ''ffmpeg tidak tersedia. Install ffmpeg dulu.'') r)
      else (case get_ffmpeg_proc (session r) of
              None \<Rightarrow> start_new_job e (the video_path) stream_key is_shorts r
            | Some proc \<Rightarrow>
                if poll_is_None e proc
                then (None, show_message already_running_warning r)
                else start_new_job e (the video_path) stream_key is_shorts r))"

section \<open>Stopping the encoder (\<^verbatim>\<open>main\<close>, lines 262 to 278)\<close>

text \<open>
  The inner \<^verbatim>\<open>try\<close> turns any exception of \<^verbatim>\<open>wait(timeout=5)\<close> into a \<^verbatim>\<open>kill\<close>; the outer one
  logs an exception of \<^verbatim>\<open>terminate\<close> or \<^verbatim>\<open>kill\<close>. The assignment at line 276 follows both.
\<close>

definition terminate_proc :: "environment \<Rightarrow> handle \<Rightarrow> run \<Rightarrow> run" where
  "terminate_proc e proc r =
     (let r1 = os_call (Terminate proc) r
      in case terminate_raises e of
           Some exn \<Rightarrow> append_log e (''Gagal menghentikan ffmpeg: '' @ exn) r1
         | None \<Rightarrow>
             (let r2 = os_call (Wait proc 5) r1
              in if wait_raises e
                 then (let r3 = os_call (Kill proc) r2
                       in case kill_raises e of
                            Some exn \<Rightarrow> append_log e (''Gagal menghentikan ffmpeg: '' @ exn) r3
                          | None \<Rightarrow> append_log e ''Proses ffmpeg dihentikan.'' r3)
                 else append_log e ''Proses ffmpeg dihentikan.'' r2))"

definition nothing_active_info :: ui_message where
  "nothing_active_info = St_info ''Tidak ada proses ffmpeg aktif.''"

definition stop_clicked :: "environment \<Rightarrow> run \<Rightarrow> run" where
  "stop_clicked e r =
     (case get_ffmpeg_proc (session r) of
        None \<Rightarrow> show_message nothing_active_info r
      | Some proc \<Rightarrow>
          if poll_is_None e proc
          then (let r1 = append_log e ''Menghentikan proses ffmpeg...'' r;
                    r2 = terminate_proc e proc r1
                in r2\<lparr>session := (session r2)\<lparr>session_ffmpeg_proc := Value None\<rparr>\<rparr>)
          else show_message nothing_active_info r)"

text \<open>
  A sequence of appends made in one run, the lines they produce (the \<open>i\<close>-th reading of the
  clock stamps the \<open>i\<close>-th line), and the buffer a run finds stored.
\<close>

definition append_all :: "environment \<Rightarrow> string list \<Rightarrow> run \<Rightarrow> run" where
  "append_all e msgs r = foldl (\<lambda>r' msg. append_log e msg r') r msgs"

definition stamped :: "environment \<Rightarrow> nat \<Rightarrow> string list \<Rightarrow> string list" where
  "stamped e k msgs =
     map (\<lambda>(i, msg). log_line (clock e i) msg) (zip [k..<k + length msgs] msgs)"

definition stored_logs :: "session_state \<Rightarrow> string list" where
  "stored_logs s = (case session_logs s of None \<Rightarrow> [] | Some l \<Rightarrow> l)"

section \<open>Receiving an upload (\<^verbatim>\<open>save_uploaded_file\<close>, and \<^verbatim>\<open>main\<close>, lines 180 to 206)\<close>

text \<open>
  The upload source is a readable stream: its bytes, the position of the next read, whether
  \<^verbatim>\<open>seek(0)\<close> raises, the attribute \<^verbatim>\<open>size\<close> and the length of the view \<^verbatim>\<open>getbuffer()\<close>
  returns (\<open>None\<close> when the object has no such attribute). A stream may hand out fewer bytes
  than asked for: \<open>read_limits\<close> bounds the successive reads, the \<open>i\<close>-th one returning at most
  \<open>Suc\<close> of the \<open>i\<close>-th limit; with no limit left a read returns all it is asked for, as
  \<^verbatim>\<open>BytesIO\<close> does. An empty read means that the stream is exhausted.
\<close>

record upload_source =
  content :: bytes
  position :: nat
  seek_raises :: bool
  size_attr :: "nat option"
  getbuffer_len :: "nat option"
  read_limits :: "nat list"

definition seek_start :: "upload_source \<Rightarrow> upload_source" where
  "seek_start src = (if seek_raises src then src else src\<lparr>position := 0\<rparr>)"

text \<open>
  \<^verbatim>\<open>getattr(uploaded_file, "size", None) or getattr(uploaded_file, "getbuffer", lambda: None)()\<close>,
  then the length of the view.
\<close>

definition total_size :: "upload_source \<Rightarrow> nat option" where
  "total_size src =
     (case size_attr src of
        None \<Rightarrow> getbuffer_len src
      | Some n \<Rightarrow> if n = 0 then getbuffer_len src else Some n)"

definition read_chunk :: "upload_source \<Rightarrow> nat \<Rightarrow> bytes" where
  "read_chunk src n =
     take (case read_limits src of [] \<Rightarrow> n | l # _ \<Rightarrow> min n (Suc l))
          (drop (position src) (content src))"

definition after_read :: "upload_source \<Rightarrow> nat \<Rightarrow> upload_source" where
  "after_read src n =
     src\<lparr>position := position src + length (read_chunk src n),
         read_limits := tl (read_limits src)\<rparr>"

text \<open>
  The progress callback returns, or raises an exception of the class \<^verbatim>\<open>Exception\<close>, or
  raises one outside that class; the model records each invocation with its two arguments
  and its outcome.
\<close>

datatype callback_outcome = Returns | Raises_Exception | Raises_BaseException

type_synonym progress_callback = "nat \<Rightarrow> nat option \<Rightarrow> callback_outcome"

record save_state =
  files :: filesystem
  writes :: "bytes list"
  written :: nat
  progress :: "(nat \<times> nat option \<times> callback_outcome) list"

definition file_bytes :: "filesystem \<Rightarrow> path \<Rightarrow> bytes" where
  "file_bytes fs p = (case fs p of None \<Rightarrow> [] | Some b \<Rightarrow> b)"

text \<open>
  One pass of the \<^verbatim>\<open>while True\<close> loop: \<^verbatim>\<open>f.write(chunk)\<close> appends to the open file,
  \<^verbatim>\<open>written += len(chunk)\<close>, then the callback. \<^verbatim>\<open>except Exception: pass\<close> drops an
  exception of the class \<^verbatim>\<open>Exception\<close>; any other one leaves the loop and the function, and
  the file keeps what was written so far.
\<close>

definition write_chunk ::
  "path \<Rightarrow> progress_callback option \<Rightarrow> nat option \<Rightarrow> bytes \<Rightarrow> save_state
     \<Rightarrow> uncaught option \<times> save_state" where
  "write_chunk dest_path cb total' chunk st =
     (let st1 = st\<lparr>files := (files st)(dest_path \<mapsto> file_bytes (files st) dest_path @ chunk),
                   writes := writes st @ [chunk],
                   written := written st + length chunk\<rparr>
      in case cb of
           None \<Rightarrow> (None, st1)
         | Some f \<Rightarrow>
             (let st2 = st1\<lparr>progress := progress st1
                                 @ [(written st1, total', f (written st1) total')]\<rparr>
              in case f (written st1) total' of
                   Returns \<Rightarrow> (None, st2)
                 | Raises_Exception \<Rightarrow> (None, st2)
                 | Raises_BaseException \<Rightarrow> (Some Uncaught_BaseException, st2)))"

function write_chunks ::
  "nat \<Rightarrow> path \<Rightarrow> progress_callback option \<Rightarrow> nat option \<Rightarrow> upload_source \<Rightarrow> save_state
     \<Rightarrow> uncaught option \<times> save_state" where
  "write_chunks chunk_size dest_path cb total' src st =
     (if read_chunk src chunk_size = [] then (None, st)
      else if fst (write_chunk dest_path cb total' (read_chunk src chunk_size) st) \<noteq> None
      then write_chunk dest_path cb total' (read_chunk src chunk_size) st
      else write_chunks chunk_size dest_path cb total' (after_read src chunk_size)
             (snd (write_chunk dest_path cb total' (read_chunk src chunk_size) st)))"
  by pat_completeness auto
termination
proof (relation "measure (\<lambda>(chunk_size, dest_path, cb, total', src, st).
                    length (content src) - position src)")
  show "wf (measure (\<lambda>(chunk_size :: nat, dest_path :: path, cb :: progress_callback option,
                        total' :: nat option, src, st :: save_state).
                    length (content src) - position src))"
    by simp
next
  fix chunk_size :: nat and dest_path :: path and cb :: "progress_callback option"
    and total' :: "nat option" and src :: upload_source and st :: save_state
  assume nonempty: "read_chunk src chunk_size \<noteq> []"
  define k where "k = length (read_chunk src chunk_size)"
  have "0 < k"
    using nonempty by (simp add: k_def)
  moreover have "k \<le> length (content src) - position src"
    by (simp add: k_def read_chunk_def)
  ultimately have "length (content src) - (position src + k)
                     < length (content src) - position src"
    by arith
  then show "((chunk_size, dest_path, cb, total', after_read src chunk_size,
                     snd (write_chunk dest_path cb total' (read_chunk src chunk_size) st)),
                    (chunk_size, dest_path, cb, total', src, st))
                   \<in> measure (\<lambda>(chunk_size, dest_path, cb, total', src, st).
                        length (content src) - position src)"
    by (simp add: after_read_def k_def)
qed

text \<open>
  \<^verbatim>\<open>save_uploaded_file\<close>: rewind (an exception of \<^verbatim>\<open>seek\<close> is dropped), compute \<^verbatim>\<open>total\<close>,
  open the destination for writing (which creates or empties it), copy in chunks of
  \<^verbatim>\<open>1024 * 1024\<close> bytes and return the destination path, unless an exception of the callback
  has left the loop. Opening and writing the destination are taken to succeed: the function
  has no handler for their failure.
\<close>

definition save_uploaded_file ::
  "upload_source \<Rightarrow> path \<Rightarrow> progress_callback option \<Rightarrow> filesystem
     \<Rightarrow> (uncaught + path) \<times> save_state" where
  "save_uploaded_file uploaded_file dest_path progress_callback fs =
     (let src = seek_start uploaded_file;
          total' = total_size src;
          chunk_size = 1024 * 1024
      in case write_chunks chunk_size dest_path progress_callback total' src
                \<lparr>files = fs(dest_path \<mapsto> []), writes = [], written = 0, progress = []\<rparr> of
           (Some exn, st) \<Rightarrow> (Inl exn, st)
         | (None, st) \<Rightarrow> (Inr dest_path, st))"

text \<open>
  The destination of an upload (lines 182 to 186). The name of the upload is taken as
  \<^verbatim>\<open>pathlib\<close> prints it: not empty, with no empty or dot components and no trailing separator.
  \<^verbatim>\<open>UPLOAD_DIR / name\<close> is the name itself when it is absolute; \<^verbatim>\<open>stem\<close> and \<^verbatim>\<open>suffix\<close> are
  taken of the last component, split at its last dot when that dot is neither its first nor
  its last character. \<^verbatim>\<open>int(time.time())\<close> is the number of seconds since the epoch, printed
  in decimal.
\<close>

definition UPLOAD_DIR :: path where
  "UPLOAD_DIR = ''uploads''"

definition path_join :: "path \<Rightarrow> string \<Rightarrow> path" where
  "path_join dir name = dir @ ''/'' @ name"

definition rfind_dot :: "string \<Rightarrow> nat option" where
  "rfind_dot name =
     (if CHR ''.'' \<in> set name
      then Some (length name - 1 - length (takeWhile (\<lambda>c. c \<noteq> CHR ''.'') (rev name)))
      else None)"

definition path_suffix :: "string \<Rightarrow> string" where
  "path_suffix name =
     (case rfind_dot name of
        None \<Rightarrow> []
      | Some i \<Rightarrow> if 0 < i \<and> i < length name - 1 then drop i name else [])"

definition path_stem :: "string \<Rightarrow> string" where
  "path_stem name =
     (case rfind_dot name of
        None \<Rightarrow> name
      | Some i \<Rightarrow> if 0 < i \<and> i < length name - 1 then take i name else name)"

definition digit_char :: "nat \<Rightarrow> char" where
  "digit_char d = ''0123456789'' ! d"

fun decimal :: "nat \<Rightarrow> string" where
  "decimal n = (if n < 10 then [digit_char n] else decimal (n div 10) @ [digit_char (n mod 10)])"

definition is_absolute :: "string \<Rightarrow> bool" where
  "is_absolute name = (case name of [] \<Rightarrow> False | c # cs \<Rightarrow> c = CHR ''/'')"

definition last_component :: "string \<Rightarrow> string" where
  "last_component name = rev (takeWhile (\<lambda>c. c \<noteq> CHR ''/'') (rev name))"

definition upload_path :: "string \<Rightarrow> path" where
  "upload_path name = (if is_absolute name then name else path_join UPLOAD_DIR name)"

definition upload_destination :: "filesystem \<Rightarrow> nat \<Rightarrow> string \<Rightarrow> path" where
  "upload_destination fs now name =
     (let dest_path = upload_path name
      in if fs dest_path \<noteq> None
         then path_join UPLOAD_DIR
                (path_stem (last_component dest_path) @ ''_'' @ decimal now
                   @ path_suffix (last_component dest_path))
         else dest_path)"

text \<open>
  The body of \<^verbatim>\<open>if uploaded_file is not None:\<close>. The callback \<^verbatim>\<open>progress_cb\<close> of \<^verbatim>\<open>main\<close>
  updates the progress bar and returns. The result is the exception that leaves \<^verbatim>\<open>main\<close>, if
  any, the filesystem and \<^verbatim>\<open>saved_path\<close>. The handler at line 203 catches the class
  \<^verbatim>\<open>Exception\<close> only; as the destination is taken to accept the writes, it is not reached.
\<close>

definition progress_cb :: progress_callback where
  "progress_cb written' total' = Returns"

definition receive_upload ::
  "filesystem \<Rightarrow> nat \<Rightarrow> string \<Rightarrow> upload_source
     \<Rightarrow> uncaught option \<times> filesystem \<times> path option" where
  "receive_upload fs now name uploaded_file =
     (let dest_path = upload_destination fs now name
      in case save_uploaded_file uploaded_file dest_path (Some progress_cb) fs of
           (Inr saved, st) \<Rightarrow> (None, files st, Some saved)
         | (Inl exn, st) \<Rightarrow> (Some exn, files st, None))"

section \<open>The settings file (module level, lines 21 to 34)\<close>

text \<open>
  \<^verbatim>\<open>mkdir\<close> and \<^verbatim>\<open>write_text\<close> may raise (the text of the exception is given).
  \<^verbatim>\<open>write_text\<close> opens the file for writing, which creates it, and then writes: when the
  open raises there is no file; when the exception comes after the open, the file exists and
  holds the part of the text that reached it, possibly nothing. The handler prints the
  failure and the program goes on. The result is the filesystem, the calls made on it and
  the lines printed.
\<close>

definition CONFIG_DIR :: path where
  "CONFIG_DIR = ''.streamlit''"

definition CONFIG_PATH :: path where
  "CONFIG_PATH = path_join CONFIG_DIR ''config.toml''"

definition config_text :: bytes where
  "config_text =
     ''[server]'' @ [CHR 0x0A] @
     ''maxUploadSize = 4096'' @ [CHR 0x0A] @
     ''enableXsrfProtection = false'' @ [CHR 0x0A]"

datatype fs_call = Mkdir path | Write_text path bytes

datatype write_failure = Open_raises string | Write_raises string nat

definition ensure_config ::
  "string option \<Rightarrow> write_failure option \<Rightarrow> filesystem
     \<Rightarrow> filesystem \<times> fs_call list \<times> string list" where
  "ensure_config mkdir_raises write_text_raises fs =
     (if fs CONFIG_PATH = None
      then (case mkdir_raises of
              Some exn \<Rightarrow>
                (fs, [Mkdir CONFIG_DIR], [''Gagal membuat .streamlit/config.toml: '' @ exn])
            | None \<Rightarrow>
                (case write_text_raises of
                   Some (Open_raises exn) \<Rightarrow>
                     (fs, [Mkdir CONFIG_DIR, Write_text CONFIG_PATH config_text],
                      [''Gagal membuat .streamlit/config.toml: '' @ exn])
                 | Some (Write_raises exn reached) \<Rightarrow>
                     (fs(CONFIG_PATH \<mapsto> take reached config_text),
                      [Mkdir CONFIG_DIR, Write_text CONFIG_PATH config_text],
                      [''Gagal membuat .streamlit/config.toml: '' @ exn])
                 | None \<Rightarrow>
                     (fs(CONFIG_PATH \<mapsto> config_text),
                      [Mkdir CONFIG_DIR, Write_text CONFIG_PATH config_text],
                      [''Created Streamlit config at: '' @ CONFIG_PATH])))
      else (fs, [], []))"

section \<open>What the receiver is expected to do\<close>

text \<open>
  The calls the progress callback should receive for a sequence of written chunks: after the
  \<open>i\<close>-th chunk, the number of bytes written so far and the total. And the shape of a
  sequence of full reads: every chunk has the chunk size, except the last one when it
  exhausts the source.
\<close>

definition progress_calls ::
  "progress_callback option \<Rightarrow> nat option \<Rightarrow> bytes list \<Rightarrow> (nat \<times> nat option \<times> callback_outcome) list" where
  "progress_calls cb t ws =
     (case cb of
        None \<Rightarrow> []
      | Some f \<Rightarrow> map (\<lambda>i. (length (concat (take (Suc i) ws)), t,
                            f (length (concat (take (Suc i) ws))) t)) [0..<length ws])"

text \<open>
  A callback from which no exception outside \<^verbatim>\<open>Exception\<close> comes, and the outcome recorded
  for a call.
\<close>

definition never_escapes :: "progress_callback option \<Rightarrow> bool" where
  "never_escapes cb \<longleftrightarrow>
     (case cb of None \<Rightarrow> True | Some f \<Rightarrow> \<forall>w t. f w t \<noteq> Raises_BaseException)"

definition outcome :: "nat \<times> nat option \<times> callback_outcome \<Rightarrow> callback_outcome" where
  "outcome call = snd (snd call)"

definition full_chunks :: "nat \<Rightarrow> upload_source \<Rightarrow> bytes list \<Rightarrow> bool" where
  "full_chunks n src ws \<longleftrightarrow>
     (\<forall>i < length ws. length (ws ! i) = n
        \<or> (Suc i = length ws \<and> length (content src) \<le> position src))"

section \<open>Example inputs\<close>

text \<open>
  A five-byte upload that has been read up to its third byte and can be rewound, the same
  upload behind a stream that serves two bytes, then one, then the rest, a callback that
  raises an \<^verbatim>\<open>Exception\<close> on every call, one that raises outside \<^verbatim>\<open>Exception\<close> once three
  bytes are written, and the first upload when it cannot be rewound.
\<close>

definition example_source :: upload_source where
  "example_source = \<lparr>content = ''abcde'', position = 2, seek_raises = False, size_attr = Some 5,
     getbuffer_len = Some 5, read_limits = []\<rparr>"

definition short_read_source :: upload_source where
  "short_read_source = example_source\<lparr>read_limits := [1, 0]\<rparr>"

definition failing_callback :: progress_callback where
  "failing_callback written' total' = Raises_Exception"

definition exiting_callback :: progress_callback where
  "exiting_callback written' total' = (if written' = 3 then Raises_BaseException else Returns)"

definition unseekable_source :: upload_source where
  "unseekable_source = example_source\<lparr>seek_raises := True\<rparr>"

text \<open>
  An uploads directory that holds \<^verbatim>\<open>video.mp4\<close> and a file whose name is \<^verbatim>\<open>video\<close> followed by
  a time stamp, and a third upload.
\<close>

definition colliding_uploads :: filesystem where
  "colliding_uploads =
     [''uploads/video.mp4'' \<mapsto> ''first'', ''uploads/video_1700000000.mp4'' \<mapsto> ''second'']"

definition third_upload :: upload_source where
  "third_upload = \<lparr>content = ''third'', position = 0, seek_raises = False, size_attr = Some 5,
     getbuffer_len = Some 5, read_limits = []\<rparr>"

text \<open>
  An environment in which the probe finds the encoder but \<^verbatim>\<open>Popen\<close> does not, process 7 is
  running, and a stopped process does not exit within the grace period; a session whose
  stored process is running, one whose stored process has exited, and a new session.
\<close>

definition example_environment :: environment where
  "example_environment =
     \<lparr>clock = (\<lambda>n. ''12:00:00''), ffmpeg_available = True, popen = FileNotFoundError,
      poll_is_None = (\<lambda>proc. proc = 7), terminate_raises = None, wait_raises = True,
      kill_raises = None\<rparr>"

definition live_session :: session_state where
  "live_session = \<lparr>session_logs = Some [''[11:59:59] frame=1''], session_ffmpeg_proc = Value (Some 7)\<rparr>"

definition exited_session :: session_state where
  "exited_session = \<lparr>session_logs = Some [''[11:59:59] frame=1''], session_ffmpeg_proc = Value (Some 3)\<rparr>"

definition fresh_session :: session_state where
  "fresh_session = \<lparr>session_logs = None, session_ffmpeg_proc = Key_absent\<rparr>"

section \<open>Properties\<close>

subsection \<open>The encoder command\<close>


subsection \<open>The log buffer\<close>

lemma stamped_snoc: "stamped e k (msgs @ [m]) = stamped e k msgs @ [log_line (clock e (k + length msgs)) m]"
  by (simp add: stamped_def)

lemma append_all_snoc: "append_all e (msgs @ [m]) r = append_log e m (append_all e msgs r)"
  by (simp add: append_all_def)

lemma append_all_logs:
  "logs (append_all e msgs r) = logs r @ stamped e (clock_reads r) msgs
   \<and> clock_reads (append_all e msgs r) = clock_reads r + length msgs"
proof (induction msgs rule: rev_induct)
  case Nil
  show ?case by (simp add: append_all_def stamped_def)
next
  case (snoc m msgs)
  then show ?case
    by (simp add: append_all_snoc stamped_snoc append_log_def Let_def)
qed

lemma append_log_session:
  "session_logs (session (append_log e m r)) = Some (last_n 200 (logs (append_log e m r)))"
  by (simp add: append_log_def Let_def)

lemma length_last_n: "length (last_n n xs) = min n (length xs)"
  by (simp add: last_n_def)

text \<open>
  C2. Whatever lines a run of \<^verbatim>\<open>main\<close> appends, after each append the stored buffer is the
  last 200 entries of the buffer the run found followed by the appended lines, in the order
  of the appends: its length is the smaller of 200 and the number of entries so far, and the
  entries dropped are the oldest ones.
\<close>

theorem C2_log_bounded_fifo:
  "session_logs (session (append_all e (msgs @ [m]) (begin_run s)))
     = Some (last_n 200 (stored_logs s @ stamped e 0 (msgs @ [m])))
   \<and> last_n 200 (stored_logs s @ stamped e 0 (msgs @ [m]))
     = drop (length (stored_logs s) + length msgs + 1 - 200) (stored_logs s @ stamped e 0 (msgs @ [m]))
   \<and> length (last_n 200 (stored_logs s @ stamped e 0 (msgs @ [m])))
     = min 200 (length (stored_logs s) + length msgs + 1)
   \<and> length (last_n 200 (stored_logs s @ stamped e 0 (msgs @ [m]))) \<le> 200"
proof -
  have "logs (begin_run s) = stored_logs s" "clock_reads (begin_run s) = 0"
    by (simp_all add: begin_run_def stored_logs_def)
  then have "logs (append_all e (msgs @ [m]) (begin_run s)) = stored_logs s @ stamped e 0 (msgs @ [m])"
    using append_all_logs [of e "msgs @ [m]" "begin_run s"] by simp
  moreover have "session_logs (session (append_all e (msgs @ [m]) (begin_run s)))
      = Some (last_n 200 (logs (append_all e (msgs @ [m]) (begin_run s))))"
    unfolding append_all_snoc by (rule append_log_session)
  moreover have "length (stamped e 0 (msgs @ [m])) = length msgs + 1"
    by (simp add: stamped_def)
  ultimately have "session_logs (session (append_all e (msgs @ [m]) (begin_run s)))
     = Some (last_n 200 (stored_logs s @ stamped e 0 (msgs @ [m])))
   \<and> last_n 200 (stored_logs s @ stamped e 0 (msgs @ [m]))
     = drop (length (stored_logs s) + length msgs + 1 - 200) (stored_logs s @ stamped e 0 (msgs @ [m]))
   \<and> length (last_n 200 (stored_logs s @ stamped e 0 (msgs @ [m])))
     = min 200 (length (stored_logs s) + length msgs + 1)"
    by (simp add: last_n_def)
  moreover have "length (last_n 200 (stored_logs s @ stamped e 0 (msgs @ [m]))) \<le> 200"
    by (simp add: length_last_n)
  ultimately show ?thesis
    by blast
qed

subsection \<open>The copy loop of the receiver\<close>

declare write_chunks.simps [simp del]

lemma write_chunks_stop:
  "read_chunk src n = [] \<Longrightarrow> write_chunks n dest cb t src st = (None, st)"
  by (subst write_chunks.simps) simp

lemma write_chunks_abort:
  "read_chunk src n \<noteq> [] \<Longrightarrow> fst (write_chunk dest cb t (read_chunk src n) st) \<noteq> None \<Longrightarrow>
   write_chunks n dest cb t src st = write_chunk dest cb t (read_chunk src n) st"
  by (subst write_chunks.simps) simp

lemma write_chunks_step:
  "read_chunk src n \<noteq> [] \<Longrightarrow> fst (write_chunk dest cb t (read_chunk src n) st) = None \<Longrightarrow>
   write_chunks n dest cb t src st
     = write_chunks n dest cb t (after_read src n)
         (snd (write_chunk dest cb t (read_chunk src n) st))"
  by (subst write_chunks.simps) simp

lemma read_split:
  "drop (position src) (content src)
     = read_chunk src n @ drop (position (after_read src n)) (content (after_read src n))"
proof -
  define xs where "xs = drop (position src) (content src)"
  define k where "k = (case read_limits src of [] \<Rightarrow> n | l # _ \<Rightarrow> min n (Suc l))"
  have chunk: "read_chunk src n = take k xs"
    by (simp add: read_chunk_def xs_def k_def)
  have "drop (position (after_read src n)) (content (after_read src n))
          = drop (length (take k xs)) xs"
    by (simp add: after_read_def chunk xs_def add.commute)
  also have "\<dots> = drop k xs"
    by (cases "k \<le> length xs") (simp_all add: min_def)
  finally show ?thesis
    unfolding chunk xs_def [symmetric] by simp
qed

lemma read_empty:
  assumes "0 < n" "read_chunk src n = []"
  shows "drop (position src) (content src) = []"
proof -
  have "0 < (case read_limits src of [] \<Rightarrow> n | l # _ \<Rightarrow> min n (Suc l))"
    using assms(1) by (simp split: list.splits)
  with assms(2) show ?thesis
    by (simp add: read_chunk_def)
qed

lemma read_chunk_length: "length (read_chunk src n) \<le> n"
  by (auto simp add: read_chunk_def split: list.splits)

lemma write_chunk_fst:
  "fst (write_chunk dest cb t chunk st)
     = (case cb of
          None \<Rightarrow> None
        | Some f \<Rightarrow> if f (written st + length chunk) t = Raises_BaseException
                    then Some Uncaught_BaseException else None)"
  by (simp add: write_chunk_def Let_def split: option.splits callback_outcome.splits)

lemma write_chunk_files:
  "files (snd (write_chunk dest cb t chunk st))
     = (files st)(dest \<mapsto> file_bytes (files st) dest @ chunk)"
  by (simp add: write_chunk_def Let_def split: option.splits callback_outcome.splits)

lemma write_chunk_writes:
  "writes (snd (write_chunk dest cb t chunk st)) = writes st @ [chunk]"
  by (simp add: write_chunk_def Let_def split: option.splits callback_outcome.splits)

lemma write_chunk_written:
  "written (snd (write_chunk dest cb t chunk st)) = written st + length chunk"
  by (simp add: write_chunk_def Let_def split: option.splits callback_outcome.splits)

lemma write_chunk_progress:
  "progress (snd (write_chunk dest cb t chunk st))
     = (case cb of None \<Rightarrow> progress st
        | Some f \<Rightarrow> progress st @ [(written st + length chunk, t, f (written st + length chunk) t)])"
  by (simp add: write_chunk_def Let_def split: option.splits callback_outcome.splits)

lemma write_chunk_never_escapes:
  "never_escapes cb \<Longrightarrow> fst (write_chunk dest cb t chunk st) = None"
  by (cases cb) (simp_all add: write_chunk_fst never_escapes_def)

text \<open>Facts that hold for every callback.\<close>

lemma write_chunks_file_is_writes:
  "files st dest = Some (concat (writes st)) \<Longrightarrow>
   files (snd (write_chunks n dest cb t src st)) dest
     = Some (concat (writes (snd (write_chunks n dest cb t src st))))"
proof (induction n dest cb t src st rule: write_chunks.induct)
  case (1 n dest cb t src st)
  let ?st' = "snd (write_chunk dest cb t (read_chunk src n) st)"
  have next_state: "files ?st' dest = Some (concat (writes ?st'))"
    using "1.prems" by (simp add: write_chunk_files write_chunk_writes file_bytes_def)
  consider "read_chunk src n = []"
    | "read_chunk src n \<noteq> []" "fst (write_chunk dest cb t (read_chunk src n) st) \<noteq> None"
    | "read_chunk src n \<noteq> []" "fst (write_chunk dest cb t (read_chunk src n) st) = None"
    by blast
  then show ?case
  proof cases
    case 1
    with "1.prems" show ?thesis by (simp add: write_chunks_stop)
  next
    case 2
    with next_state show ?thesis by (simp add: write_chunks_abort)
  next
    case 3
    with "1.IH" next_state show ?thesis by (simp add: write_chunks_step)
  qed
qed

lemma write_chunks_frame:
  "p \<noteq> dest \<Longrightarrow> files (snd (write_chunks n dest cb t src st)) p = files st p"
proof (induction n dest cb t src st rule: write_chunks.induct)
  case (1 n dest cb t src st)
  consider "read_chunk src n = []"
    | "read_chunk src n \<noteq> []" "fst (write_chunk dest cb t (read_chunk src n) st) \<noteq> None"
    | "read_chunk src n \<noteq> []" "fst (write_chunk dest cb t (read_chunk src n) st) = None"
    by blast
  then show ?case
  proof cases
    case 1
    then show ?thesis by (simp add: write_chunks_stop)
  next
    case 2
    with "1.prems" show ?thesis by (simp add: write_chunks_abort write_chunk_files)
  next
    case 3
    with "1.IH" "1.prems" show ?thesis by (simp add: write_chunks_step write_chunk_files)
  qed
qed

lemma write_chunks_prefix:
  "\<exists>rest. concat (writes st) @ drop (position src) (content src)
            = concat (writes (snd (write_chunks n dest cb t src st))) @ rest"
proof (induction n dest cb t src st rule: write_chunks.induct)
  case (1 n dest cb t src st)
  let ?st' = "snd (write_chunk dest cb t (read_chunk src n) st)"
  have split: "concat (writes st) @ drop (position src) (content src)
      = concat (writes ?st') @ drop (position (after_read src n)) (content (after_read src n))"
    by (simp add: write_chunk_writes read_split [of src n])
  consider "read_chunk src n = []"
    | "read_chunk src n \<noteq> []" "fst (write_chunk dest cb t (read_chunk src n) st) \<noteq> None"
    | "read_chunk src n \<noteq> []" "fst (write_chunk dest cb t (read_chunk src n) st) = None"
    by blast
  then show ?case
  proof cases
    case 1
    then show ?thesis by (simp add: write_chunks_stop)
  next
    case 2
    with split show ?thesis by (simp add: write_chunks_abort)
  next
    case 3
    with "1.IH" split show ?thesis by (simp add: write_chunks_step)
  qed
qed

lemma write_chunks_complete:
  "0 < n \<Longrightarrow> fst (write_chunks n dest cb t src st) = None \<Longrightarrow>
   concat (writes (snd (write_chunks n dest cb t src st)))
     = concat (writes st) @ drop (position src) (content src)"
proof (induction n dest cb t src st rule: write_chunks.induct)
  case (1 n dest cb t src st)
  let ?st' = "snd (write_chunk dest cb t (read_chunk src n) st)"
  have split: "concat (writes st) @ drop (position src) (content src)
      = concat (writes ?st') @ drop (position (after_read src n)) (content (after_read src n))"
    by (simp add: write_chunk_writes read_split [of src n])
  consider "read_chunk src n = []"
    | "read_chunk src n \<noteq> []" "fst (write_chunk dest cb t (read_chunk src n) st) \<noteq> None"
    | "read_chunk src n \<noteq> []" "fst (write_chunk dest cb t (read_chunk src n) st) = None"
    by blast
  then show ?case
  proof cases
    case 1
    with "1.prems" show ?thesis by (simp add: write_chunks_stop read_empty)
  next
    case 2
    with "1.prems" show ?thesis by (simp add: write_chunks_abort)
  next
    case 3
    with "1.IH" "1.prems" split show ?thesis by (simp add: write_chunks_step)
  qed
qed

lemma write_chunks_sizes:
  "\<forall>c \<in> set (writes st). c \<noteq> [] \<and> length c \<le> n \<Longrightarrow>
   \<forall>c \<in> set (writes (snd (write_chunks n dest cb t src st))). c \<noteq> [] \<and> length c \<le> n"
proof (induction n dest cb t src st rule: write_chunks.induct)
  case (1 n dest cb t src st)
  let ?st' = "snd (write_chunk dest cb t (read_chunk src n) st)"
  consider "read_chunk src n = []"
    | "read_chunk src n \<noteq> []" "fst (write_chunk dest cb t (read_chunk src n) st) \<noteq> None"
    | "read_chunk src n \<noteq> []" "fst (write_chunk dest cb t (read_chunk src n) st) = None"
    by blast
  then show ?case
  proof cases
    case 1
    with "1.prems" show ?thesis by (simp add: write_chunks_stop)
  next
    case 2
    with "1.prems" show ?thesis
      by (simp add: write_chunks_abort write_chunk_writes read_chunk_length)
  next
    case 3
    have "\<forall>c \<in> set (writes ?st'). c \<noteq> [] \<and> length c \<le> n"
      using "1.prems" 3(1) by (simp add: write_chunk_writes read_chunk_length)
    with "1.IH" 3 show ?thesis by (simp add: write_chunks_step)
  qed
qed

lemma progress_calls_snoc:
  "progress_calls (Some f) t (ws @ [c])
     = progress_calls (Some f) t ws
       @ [(length (concat ws) + length c, t, f (length (concat ws) + length c) t)]"
  by (simp add: progress_calls_def)

lemma write_chunk_progress_inv:
  assumes "written st = length (concat (writes st))"
    and "progress st = progress_calls cb t (writes st)"
  shows "written (snd (write_chunk dest cb t chunk st))
           = length (concat (writes (snd (write_chunk dest cb t chunk st))))
         \<and> progress (snd (write_chunk dest cb t chunk st))
           = progress_calls cb t (writes (snd (write_chunk dest cb t chunk st)))"
proof (cases cb)
  case None
  with assms show ?thesis
    by (simp add: write_chunk_written write_chunk_writes write_chunk_progress progress_calls_def)
next
  case (Some f)
  with assms show ?thesis
    by (simp add: write_chunk_written write_chunk_writes write_chunk_progress
          progress_calls_snoc)
qed

lemma write_chunks_progress:
  "written st = length (concat (writes st)) \<Longrightarrow>
   progress st = progress_calls cb t (writes st) \<Longrightarrow>
   written (snd (write_chunks n dest cb t src st))
     = length (concat (writes (snd (write_chunks n dest cb t src st))))
   \<and> progress (snd (write_chunks n dest cb t src st))
     = progress_calls cb t (writes (snd (write_chunks n dest cb t src st)))"
proof (induction n dest cb t src st rule: write_chunks.induct)
  case (1 n dest cb t src st)
  note next_state = write_chunk_progress_inv [OF "1.prems", of dest "read_chunk src n"]
  consider "read_chunk src n = []"
    | "read_chunk src n \<noteq> []" "fst (write_chunk dest cb t (read_chunk src n) st) \<noteq> None"
    | "read_chunk src n \<noteq> []" "fst (write_chunk dest cb t (read_chunk src n) st) = None"
    by blast
  then show ?case
  proof cases
    case 1
    with "1.prems" show ?thesis by (simp add: write_chunks_stop)
  next
    case 2
    with next_state show ?thesis by (simp add: write_chunks_abort)
  next
    case 3
    with "1.IH" next_state show ?thesis by (simp add: write_chunks_step)
  qed
qed

text \<open>
  The loop goes on until the first call of the callback that raises outside \<^verbatim>\<open>Exception\<close>,
  and ends there with that exception.
\<close>

lemma write_chunks_escape:
  "\<forall>call \<in> set (progress st). outcome call \<noteq> Raises_BaseException \<Longrightarrow>
   (fst (write_chunks n dest cb t src st) = None \<longrightarrow>
      (\<forall>call \<in> set (progress (snd (write_chunks n dest cb t src st))).
          outcome call \<noteq> Raises_BaseException))
   \<and> (fst (write_chunks n dest cb t src st) \<noteq> None \<longrightarrow>
        fst (write_chunks n dest cb t src st) = Some Uncaught_BaseException
        \<and> progress (snd (write_chunks n dest cb t src st)) \<noteq> []
        \<and> outcome (last (progress (snd (write_chunks n dest cb t src st))))
            = Raises_BaseException
        \<and> (\<forall>call \<in> set (butlast (progress (snd (write_chunks n dest cb t src st)))).
              outcome call \<noteq> Raises_BaseException))"
proof (induction n dest cb t src st rule: write_chunks.induct)
  case (1 n dest cb t src st)
  let ?step = "write_chunk dest cb t (read_chunk src n) st"
  consider "read_chunk src n = []"
    | "read_chunk src n \<noteq> []" "fst ?step \<noteq> None"
    | "read_chunk src n \<noteq> []" "fst ?step = None"
    by blast
  then show ?case
  proof cases
    case 1
    with "1.prems" show ?thesis by (simp add: write_chunks_stop)
  next
    case 2
    from 2(2) obtain f where f: "cb = Some f"
      "f (written st + length (read_chunk src n)) t = Raises_BaseException"
      by (auto simp add: write_chunk_fst split: option.splits if_splits)
    then have "fst ?step = Some Uncaught_BaseException"
      "progress (snd ?step)
         = progress st @ [(written st + length (read_chunk src n), t, Raises_BaseException)]"
      by (simp_all add: write_chunk_fst write_chunk_progress)
    with 2(1) "1.prems" show ?thesis
      by (simp add: write_chunks_abort outcome_def)
  next
    case 3
    have "\<forall>call \<in> set (progress (snd ?step)). outcome call \<noteq> Raises_BaseException"
    proof (cases cb)
      case None
      with "1.prems" show ?thesis by (simp add: write_chunk_progress)
    next
      case (Some f)
      with 3(2) have "f (written st + length (read_chunk src n)) t \<noteq> Raises_BaseException"
        by (simp add: write_chunk_fst split: if_splits)
      with Some "1.prems" show ?thesis
        by (simp add: write_chunk_progress outcome_def)
    qed
    with "1.IH" 3 show ?thesis
      by (simp add: write_chunks_step)
  qed
qed

lemma write_chunks_never_escapes:
  "never_escapes cb \<Longrightarrow> fst (write_chunks n dest cb t src st) = None"
proof (induction n dest cb t src st rule: write_chunks.induct)
  case (1 n dest cb t src st)
  have step: "fst (write_chunk dest cb t (read_chunk src n) st) = None"
    using "1.prems" by (rule write_chunk_never_escapes)
  show ?case
  proof (cases "read_chunk src n = []")
    case True
    then show ?thesis by (simp add: write_chunks_stop)
  next
    case False
    with "1.IH" "1.prems" step show ?thesis
      by (simp add: write_chunks_step)
  qed
qed

lemma write_chunks_writes_any_callback:
  "never_escapes cb \<Longrightarrow> never_escapes cb' \<Longrightarrow> writes st = writes st' \<Longrightarrow>
   writes (snd (write_chunks n dest cb t src st))
     = writes (snd (write_chunks n dest cb' t' src st'))"
proof (induction n dest cb t src st arbitrary: st' rule: write_chunks.induct)
  case (1 n dest cb t src st)
  have step: "fst (write_chunk dest cb t (read_chunk src n) st) = None"
    "fst (write_chunk dest cb' t' (read_chunk src n) st') = None"
    using "1.prems" by (simp_all add: write_chunk_never_escapes)
  show ?case
  proof (cases "read_chunk src n = []")
    case True
    with "1.prems" show ?thesis by (simp add: write_chunks_stop)
  next
    case False
    have "writes (snd (write_chunk dest cb t (read_chunk src n) st))
            = writes (snd (write_chunk dest cb' t' (read_chunk src n) st'))"
      using "1.prems" by (simp add: write_chunk_writes)
    with "1.IH" [of "snd (write_chunk dest cb' t' (read_chunk src n) st')"]
      "1.prems"(1,2) False step show ?thesis
      by (simp add: write_chunks_step)
  qed
qed

lemma write_chunks_full:
  "read_limits src = [] \<Longrightarrow> full_chunks n src (writes st) \<Longrightarrow>
   (\<forall>i. Suc i < length (writes (snd (write_chunks n dest cb t src st))) \<longrightarrow>
        length (writes (snd (write_chunks n dest cb t src st)) ! i) = n)"
proof (induction n dest cb t src st rule: write_chunks.induct)
  case (1 n dest cb t src st)
  let ?step = "write_chunk dest cb t (read_chunk src n) st"
  show ?case
  proof (cases "read_chunk src n = []")
    case True
    have "length (writes st ! i) = n" if "Suc i < length (writes st)" for i
    proof -
      from that have "i < length (writes st)" by simp
      with "1.prems"(2) have "length (writes st ! i) = n
          \<or> (Suc i = length (writes st) \<and> length (content src) \<le> position src)"
        by (simp add: full_chunks_def)
      with that show ?thesis by simp
    qed
    with True show ?thesis
      by (simp add: write_chunks_stop)
  next
    case False
    then have pos: "position src < length (content src)"
      by (auto simp add: read_chunk_def)
    with "1.prems"(2) have old: "\<forall>i < length (writes st). length (writes st ! i) = n"
      by (auto simp add: full_chunks_def)
    have len: "length (read_chunk src n) = min n (length (content src) - position src)"
      using "1.prems"(1) by (simp add: read_chunk_def min.commute)
    have full: "full_chunks n (after_read src n) (writes (snd ?step))"
      unfolding full_chunks_def write_chunk_writes
    proof (intro allI impI)
      fix i
      assume "i < length (writes st @ [read_chunk src n])"
      then consider "i < length (writes st)" | "i = length (writes st)"
        by fastforce
      then show "length ((writes st @ [read_chunk src n]) ! i) = n
          \<or> (Suc i = length (writes st @ [read_chunk src n])
              \<and> length (content (after_read src n)) \<le> position (after_read src n))"
      proof cases
        case 1
        with old show ?thesis by (simp add: nth_append)
      next
        case 2
        with len show ?thesis
          by (auto simp add: nth_append after_read_def min_def)
      qed
    qed
    have limits: "read_limits (after_read src n) = []"
      using "1.prems"(1) by (simp add: after_read_def)
    show ?thesis
    proof (cases "fst ?step = None")
      case True
      with "1.IH" limits full False show ?thesis
        by (simp add: write_chunks_step)
    next
      case abort: False
      have "length (writes (snd ?step) ! i) = n" if "Suc i < length (writes (snd ?step))" for i
        using that old by (simp add: write_chunk_writes nth_append)
      with False abort show ?thesis
        by (simp add: write_chunks_abort)
    qed
  qed
qed

subsection \<open>The receiver\<close>

lemma total_size_seek_start: "total_size (seek_start src) = total_size src"
  by (simp add: total_size_def seek_start_def split: option.splits)

lemma seek_start_fields:
  "content (seek_start src) = content src" "read_limits (seek_start src) = read_limits src"
  by (simp_all add: seek_start_def)

lemma save_uploaded_file_snd:
  "snd (save_uploaded_file src dest cb fs)
     = snd (write_chunks (1024 * 1024) dest cb (total_size src) (seek_start src)
              \<lparr>files = fs(dest \<mapsto> []), writes = [], written = 0, progress = []\<rparr>)"
  by (simp add: save_uploaded_file_def Let_def total_size_seek_start
        split: prod.splits option.splits)

lemma save_uploaded_file_fst:
  "fst (save_uploaded_file src dest cb fs)
     = (case fst (write_chunks (1024 * 1024) dest cb (total_size src) (seek_start src)
                    \<lparr>files = fs(dest \<mapsto> []), writes = [], written = 0, progress = []\<rparr>) of
          None \<Rightarrow> Inr dest
        | Some exn \<Rightarrow> Inl exn)"
  by (simp add: save_uploaded_file_def Let_def total_size_seek_start
        split: prod.splits option.splits)

lemma save_uploaded_file_dest:
  "files (snd (save_uploaded_file src dest cb fs)) dest
     = Some (concat (writes (snd (save_uploaded_file src dest cb fs))))"
  unfolding save_uploaded_file_snd by (rule write_chunks_file_is_writes) simp

lemma save_uploaded_file_frame:
  "p \<noteq> dest \<Longrightarrow> files (snd (save_uploaded_file src dest cb fs)) p = fs p"
  unfolding save_uploaded_file_snd by (simp add: write_chunks_frame)

lemma save_uploaded_file_prefix:
  "take (length (concat (writes (snd (save_uploaded_file src dest cb fs)))))
        (drop (position (seek_start src)) (content src))
     = concat (writes (snd (save_uploaded_file src dest cb fs)))"
proof -
  obtain rest where "concat (writes \<lparr>files = fs(dest \<mapsto> []), writes = [], written = 0,
        progress = ([] :: (nat \<times> nat option \<times> callback_outcome) list)\<rparr>)
      @ drop (position (seek_start src)) (content (seek_start src))
      = concat (writes (snd (save_uploaded_file src dest cb fs))) @ rest"
    unfolding save_uploaded_file_snd using write_chunks_prefix by blast
  then have "drop (position (seek_start src)) (content src)
      = concat (writes (snd (save_uploaded_file src dest cb fs))) @ rest"
    by (simp add: seek_start_fields)
  then show ?thesis
    by simp
qed

lemma save_uploaded_file_sizes:
  "\<forall>c \<in> set (writes (snd (save_uploaded_file src dest cb fs))).
      c \<noteq> [] \<and> length c \<le> 1024 * 1024"
  unfolding save_uploaded_file_snd by (rule write_chunks_sizes) simp

lemma save_uploaded_file_full:
  assumes "read_limits src = []" "Suc i < length (writes (snd (save_uploaded_file src dest cb fs)))"
  shows "length (writes (snd (save_uploaded_file src dest cb fs)) ! i) = 1024 * 1024"
proof -
  have "read_limits (seek_start src) = []"
    using assms(1) by (simp add: seek_start_fields)
  moreover have "full_chunks (1024 * 1024) (seek_start src)
      (writes \<lparr>files = fs(dest \<mapsto> []), writes = [], written = 0, progress = []\<rparr>)"
    by (simp add: full_chunks_def)
  ultimately have "\<forall>i. Suc i < length (writes (snd (write_chunks (1024 * 1024) dest cb
        (total_size src) (seek_start src)
        \<lparr>files = fs(dest \<mapsto> []), writes = [], written = 0, progress = []\<rparr>))) \<longrightarrow>
      length (writes (snd (write_chunks (1024 * 1024) dest cb
        (total_size src) (seek_start src)
        \<lparr>files = fs(dest \<mapsto> []), writes = [], written = 0, progress = []\<rparr>)) ! i) = 1024 * 1024"
    by (rule write_chunks_full)
  with assms(2) show ?thesis
    by (simp add: save_uploaded_file_snd)
qed

lemma save_uploaded_file_progress:
  "written (snd (save_uploaded_file src dest cb fs))
     = length (concat (writes (snd (save_uploaded_file src dest cb fs))))
   \<and> progress (snd (save_uploaded_file src dest cb fs))
     = progress_calls cb (total_size src) (writes (snd (save_uploaded_file src dest cb fs)))"
  unfolding save_uploaded_file_snd
  by (rule write_chunks_progress) (simp_all add: progress_calls_def split: option.splits)

lemma save_uploaded_file_escape:
  "(fst (save_uploaded_file src dest cb fs) = Inr dest
      \<or> fst (save_uploaded_file src dest cb fs) = Inl Uncaught_BaseException)
   \<and> (fst (save_uploaded_file src dest cb fs) = Inr dest \<longrightarrow>
        (\<forall>call \<in> set (progress (snd (save_uploaded_file src dest cb fs))).
            outcome call \<noteq> Raises_BaseException)
        \<and> concat (writes (snd (save_uploaded_file src dest cb fs)))
            = drop (position (seek_start src)) (content src))
   \<and> (fst (save_uploaded_file src dest cb fs) = Inl Uncaught_BaseException \<longrightarrow>
        progress (snd (save_uploaded_file src dest cb fs)) \<noteq> []
        \<and> outcome (last (progress (snd (save_uploaded_file src dest cb fs))))
            = Raises_BaseException
        \<and> (\<forall>call \<in> set (butlast (progress (snd (save_uploaded_file src dest cb fs)))).
              outcome call \<noteq> Raises_BaseException))"
proof -
  let ?init = "\<lparr>files = fs(dest \<mapsto> []), writes = [], written = 0,
      progress = ([] :: (nat \<times> nat option \<times> callback_outcome) list)\<rparr>"
  let ?run = "write_chunks (1024 * 1024) dest cb (total_size src) (seek_start src) ?init"
  have "\<forall>call \<in> set (progress ?init). outcome call \<noteq> Raises_BaseException"
    by simp
  note escape = write_chunks_escape [OF this, of "1024 * 1024" dest cb "total_size src"
      "seek_start src"]
  have complete: "fst ?run = None \<Longrightarrow>
      concat (writes (snd ?run)) = drop (position (seek_start src)) (content src)"
    using write_chunks_complete [of "1024 * 1024" dest cb "total_size src" "seek_start src" ?init]
    by (simp add: seek_start_fields)
  show ?thesis
  proof (cases "fst ?run")
    case None
    with escape complete show ?thesis
      by (simp add: save_uploaded_file_fst save_uploaded_file_snd)
  next
    case (Some exn)
    with escape show ?thesis
      by (simp add: save_uploaded_file_fst save_uploaded_file_snd)
  qed
qed

lemma save_uploaded_file_returns:
  assumes "never_escapes cb"
  shows "fst (save_uploaded_file src dest cb fs) = Inr dest"
  using write_chunks_never_escapes [OF assms] by (simp add: save_uploaded_file_fst)

lemma save_uploaded_file_files:
  assumes "never_escapes cb"
  shows "files (snd (save_uploaded_file src dest cb fs))
           = fs(dest \<mapsto> drop (position (seek_start src)) (content src))"
proof
  fix p
  have "concat (writes (snd (save_uploaded_file src dest cb fs)))
          = drop (position (seek_start src)) (content src)"
    using save_uploaded_file_escape [of src dest cb fs] save_uploaded_file_returns [OF assms]
    by simp
  then show "files (snd (save_uploaded_file src dest cb fs)) p
          = (fs(dest \<mapsto> drop (position (seek_start src)) (content src))) p"
    using save_uploaded_file_dest [of src dest cb fs] save_uploaded_file_frame [of p dest src cb fs]
    by (cases "p = dest") simp_all
qed

text \<open>
  C4, as the code has it. For every upload source, whatever its size and however its reads
  are cut, and for no callback or a callback from which no exception outside \<^verbatim>\<open>Exception\<close>
  comes: the receiver returns the destination path and leaves there exactly the bytes of the
  source from the position the attempted rewind leaves it at. That is the whole source, byte
  for byte, when \<^verbatim>\<open>seek(0)\<close> works or the source is at its start; when \<^verbatim>\<open>seek(0)\<close> raises, it
  is the part of the source after its position. No other file changes. The chunks written
  are the chunks read, in order, none empty and none longer than 1 MiB; when the source
  serves full reads every chunk but the last is exactly 1 MiB. After each chunk a given
  callback receives the number of bytes written so far and the total: the attribute
  \<^verbatim>\<open>size\<close> when the source has one that is not zero, else the length of its buffer when it
  has one, else \<open>None\<close>.
\<close>

theorem C4_receiver_copies_source:
  assumes "never_escapes cb"
  shows "fst (save_uploaded_file uploaded_file dest_path cb fs) = Inr dest_path
   \<and> files (snd (save_uploaded_file uploaded_file dest_path cb fs))
       = fs(dest_path \<mapsto> drop (if seek_raises uploaded_file then position uploaded_file else 0)
                               (content uploaded_file))
   \<and> (\<not> seek_raises uploaded_file \<or> position uploaded_file = 0 \<longrightarrow>
        files (snd (save_uploaded_file uploaded_file dest_path cb fs)) dest_path
          = Some (content uploaded_file))
   \<and> concat (writes (snd (save_uploaded_file uploaded_file dest_path cb fs)))
       = drop (if seek_raises uploaded_file then position uploaded_file else 0)
              (content uploaded_file)
   \<and> (\<forall>c \<in> set (writes (snd (save_uploaded_file uploaded_file dest_path cb fs))).
         c \<noteq> [] \<and> length c \<le> 1024 * 1024)
   \<and> (read_limits uploaded_file = [] \<longrightarrow>
        (\<forall>i. Suc i < length (writes (snd (save_uploaded_file uploaded_file dest_path cb fs))) \<longrightarrow>
           length (writes (snd (save_uploaded_file uploaded_file dest_path cb fs)) ! i)
             = 1024 * 1024))
   \<and> written (snd (save_uploaded_file uploaded_file dest_path cb fs))
       = length (drop (if seek_raises uploaded_file then position uploaded_file else 0)
                      (content uploaded_file))
   \<and> progress (snd (save_uploaded_file uploaded_file dest_path cb fs))
       = progress_calls cb
           (case size_attr uploaded_file of
              None \<Rightarrow> getbuffer_len uploaded_file
            | Some n \<Rightarrow> if n = 0 then getbuffer_len uploaded_file else Some n)
           (writes (snd (save_uploaded_file uploaded_file dest_path cb fs)))"
proof -
  have bytes: "drop (position (seek_start uploaded_file)) (content uploaded_file)
      = drop (if seek_raises uploaded_file then position uploaded_file else 0)
             (content uploaded_file)"
    by (simp add: seek_start_def)
  have total: "total_size uploaded_file
      = (case size_attr uploaded_file of
           None \<Rightarrow> getbuffer_len uploaded_file
         | Some n \<Rightarrow> if n = 0 then getbuffer_len uploaded_file else Some n)"
    by (simp add: total_size_def)
  have copy: "files (snd (save_uploaded_file uploaded_file dest_path cb fs))
       = fs(dest_path \<mapsto> drop (if seek_raises uploaded_file then position uploaded_file else 0)
                               (content uploaded_file))"
    using save_uploaded_file_files [OF assms, of uploaded_file dest_path fs] bytes by simp
  have chunks: "concat (writes (snd (save_uploaded_file uploaded_file dest_path cb fs)))
       = drop (if seek_raises uploaded_file then position uploaded_file else 0)
              (content uploaded_file)"
    using save_uploaded_file_escape [of uploaded_file dest_path cb fs]
      save_uploaded_file_returns [OF assms, of uploaded_file dest_path fs] bytes
    by simp
  have whole: "\<not> seek_raises uploaded_file \<or> position uploaded_file = 0 \<longrightarrow>
        files (snd (save_uploaded_file uploaded_file dest_path cb fs)) dest_path
          = Some (content uploaded_file)"
    using copy by auto
  have full: "read_limits uploaded_file = [] \<longrightarrow>
        (\<forall>i. Suc i < length (writes (snd (save_uploaded_file uploaded_file dest_path cb fs))) \<longrightarrow>
           length (writes (snd (save_uploaded_file uploaded_file dest_path cb fs)) ! i)
             = 1024 * 1024)"
    using save_uploaded_file_full [of uploaded_file _ dest_path cb fs] by blast
  have calls: "written (snd (save_uploaded_file uploaded_file dest_path cb fs))
       = length (drop (if seek_raises uploaded_file then position uploaded_file else 0)
                      (content uploaded_file))"
    "progress (snd (save_uploaded_file uploaded_file dest_path cb fs))
       = progress_calls cb
           (case size_attr uploaded_file of
              None \<Rightarrow> getbuffer_len uploaded_file
            | Some n \<Rightarrow> if n = 0 then getbuffer_len uploaded_file else Some n)
           (writes (snd (save_uploaded_file uploaded_file dest_path cb fs)))"
    using save_uploaded_file_progress [of uploaded_file dest_path cb fs] chunks total
    by simp_all
  from save_uploaded_file_returns [OF assms, of uploaded_file dest_path fs] copy whole chunks
    save_uploaded_file_sizes [of uploaded_file dest_path cb fs] full calls
  show ?thesis
    by blast
qed

lemmas eval_save = save_uploaded_file_def seek_start_def total_size_def write_chunks.simps
  read_chunk_def after_read_def write_chunk_def Let_def file_bytes_def

lemma example_save:
  "save_uploaded_file example_source ''uploads/a.mp4'' (Some progress_cb) Map.empty
       = (Inr ''uploads/a.mp4'',
          \<lparr>files = [''uploads/a.mp4'' \<mapsto> ''abcde''], writes = [''abcde''], written = 5,
            progress = [(5, Some 5, Returns)]\<rparr>)"
  by (simp add: example_source_def progress_cb_def eval_save)

lemma short_read_save:
  "save_uploaded_file short_read_source ''uploads/a.mp4'' (Some progress_cb) Map.empty
       = (Inr ''uploads/a.mp4'',
          \<lparr>files = [''uploads/a.mp4'' \<mapsto> ''abcde''], writes = [''ab'', ''c'', ''de''], written = 5,
            progress = [(2, Some 5, Returns), (3, Some 5, Returns), (5, Some 5, Returns)]\<rparr>)"
  by (simp add: example_source_def short_read_source_def progress_cb_def eval_save)

lemma short_read_save_failing:
  "save_uploaded_file short_read_source ''uploads/a.mp4'' (Some failing_callback) Map.empty
       = (Inr ''uploads/a.mp4'',
          \<lparr>files = [''uploads/a.mp4'' \<mapsto> ''abcde''], writes = [''ab'', ''c'', ''de''], written = 5,
            progress = [(2, Some 5, Raises_Exception), (3, Some 5, Raises_Exception),
                        (5, Some 5, Raises_Exception)]\<rparr>)"
  by (simp add: example_source_def short_read_source_def failing_callback_def eval_save)

lemma short_read_save_exiting:
  "save_uploaded_file short_read_source ''uploads/a.mp4'' (Some exiting_callback) Map.empty
       = (Inl Uncaught_BaseException,
          \<lparr>files = [''uploads/a.mp4'' \<mapsto> ''abc''], writes = [''ab'', ''c''], written = 3,
            progress = [(2, Some 5, Returns), (3, Some 5, Raises_BaseException)]\<rparr>)"
  by (simp add: example_source_def short_read_source_def exiting_callback_def eval_save)

lemma unseekable_save:
  "save_uploaded_file unseekable_source ''uploads/a.mp4'' (Some progress_cb) Map.empty
       = (Inr ''uploads/a.mp4'',
          \<lparr>files = [''uploads/a.mp4'' \<mapsto> ''cde''], writes = [''cde''], written = 3,
            progress = [(3, Some 5, Returns)]\<rparr>)"
  by (simp add: example_source_def unseekable_source_def progress_cb_def eval_save)

lemma progress_cb_never_escapes: "never_escapes (Some progress_cb)"
  by (simp add: never_escapes_def progress_cb_def)

theorem C4_receiver_copies_source_witness:
  "never_escapes (Some progress_cb)
   \<and> \<not> seek_raises example_source \<and> read_limits example_source = []
   \<and> save_uploaded_file example_source ''uploads/a.mp4'' (Some progress_cb) Map.empty
       = (Inr ''uploads/a.mp4'',
          \<lparr>files = [''uploads/a.mp4'' \<mapsto> ''abcde''], writes = [''abcde''], written = 5,
            progress = [(5, Some 5, Returns)]\<rparr>)
   \<and> save_uploaded_file short_read_source ''uploads/a.mp4'' (Some progress_cb) Map.empty
       = (Inr ''uploads/a.mp4'',
          \<lparr>files = [''uploads/a.mp4'' \<mapsto> ''abcde''], writes = [''ab'', ''c'', ''de''], written = 5,
            progress = [(2, Some 5, Returns), (3, Some 5, Returns), (5, Some 5, Returns)]\<rparr>)"
proof -
  have hyps: "\<not> seek_raises example_source" "read_limits example_source = []"
    "\<not> seek_raises short_read_source"
    by (simp_all add: example_source_def short_read_source_def)
  have "files (snd (save_uploaded_file example_source ''uploads/a.mp4'' (Some progress_cb) Map.empty))
          ''uploads/a.mp4'' = Some (content example_source)"
    using C4_receiver_copies_source [OF progress_cb_never_escapes,
        of example_source "''uploads/a.mp4''" Map.empty] hyps(1)
    by blast
  moreover have "files (snd (save_uploaded_file short_read_source ''uploads/a.mp4''
          (Some progress_cb) Map.empty)) ''uploads/a.mp4'' = Some (content short_read_source)"
    using C4_receiver_copies_source [OF progress_cb_never_escapes,
        of short_read_source "''uploads/a.mp4''" Map.empty] hyps(3)
    by blast
  ultimately show ?thesis
    using hyps progress_cb_never_escapes by (simp add: example_save short_read_save)
qed

text \<open>
  C4 as stated fails. A source that has been read up to its third byte and cannot be rewound
  is copied from that byte on: the destination holds \<^verbatim>\<open>cde\<close> for the source \<^verbatim>\<open>abcde\<close>. And
  a callback that raises outside \<^verbatim>\<open>Exception\<close> after the first chunk ends the copy there,
  with \<^verbatim>\<open>ab\<close> in the destination.
\<close>

theorem C4_unseekable_source_copied_in_part:
  "content unseekable_source = ''abcde''
   \<and> position unseekable_source = 2
   \<and> seek_raises unseekable_source
   \<and> save_uploaded_file unseekable_source ''uploads/a.mp4'' (Some progress_cb) Map.empty
       = (Inr ''uploads/a.mp4'',
          \<lparr>files = [''uploads/a.mp4'' \<mapsto> ''cde''], writes = [''cde''], written = 3,
            progress = [(3, Some 5, Returns)]\<rparr>)
   \<and> ''cde'' \<noteq> ''abcde''
   \<and> content short_read_source = ''abcde''
   \<and> save_uploaded_file short_read_source ''uploads/a.mp4''
         (Some (\<lambda>written' total'. Raises_BaseException)) Map.empty
       = (Inl Uncaught_BaseException,
          \<lparr>files = [''uploads/a.mp4'' \<mapsto> ''ab''], writes = [''ab''], written = 2,
            progress = [(2, Some 5, Raises_BaseException)]\<rparr>)"
  by (simp add: unseekable_save)
     (simp add: example_source_def short_read_source_def unseekable_source_def eval_save)

text \<open>
  C10, as the code has it. An exception of the class \<^verbatim>\<open>Exception\<close> raised by the progress
  callback is dropped: for every upload and every callback from which no other exception
  comes, the receiver returns the destination path, the destination holds the complete copy,
  the file system and the chunks written are those of a run whose callback never raises,
  and the callback is called after every chunk, also after a call that raised. An exception
  outside \<^verbatim>\<open>Exception\<close> is not caught: for every callback, the copy goes on until the first
  call that raises one and ends there with that exception, the destination holding the
  chunks written up to then, a beginning of the bytes to copy.
\<close>

theorem C10_callback_exception_swallowed:
  "((\<forall>w t. f w t \<noteq> Raises_BaseException) \<longrightarrow>
       fst (save_uploaded_file uploaded_file dest_path (Some f) fs) = Inr dest_path
     \<and> files (snd (save_uploaded_file uploaded_file dest_path (Some f) fs))
         = fs(dest_path \<mapsto> drop (position (seek_start uploaded_file)) (content uploaded_file))
     \<and> files (snd (save_uploaded_file uploaded_file dest_path (Some f) fs))
         = files (snd (save_uploaded_file uploaded_file dest_path (Some progress_cb) fs))
     \<and> writes (snd (save_uploaded_file uploaded_file dest_path (Some f) fs))
         = writes (snd (save_uploaded_file uploaded_file dest_path (Some progress_cb) fs))
     \<and> written (snd (save_uploaded_file uploaded_file dest_path (Some f) fs))
         = length (drop (position (seek_start uploaded_file)) (content uploaded_file)))
   \<and> length (progress (snd (save_uploaded_file uploaded_file dest_path (Some f) fs)))
       = length (writes (snd (save_uploaded_file uploaded_file dest_path (Some f) fs)))
   \<and> progress (snd (save_uploaded_file uploaded_file dest_path (Some f) fs))
       = progress_calls (Some f)
           (case size_attr uploaded_file of
              None \<Rightarrow> getbuffer_len uploaded_file
            | Some n \<Rightarrow> if n = 0 then getbuffer_len uploaded_file else Some n)
           (writes (snd (save_uploaded_file uploaded_file dest_path (Some f) fs)))
   \<and> files (snd (save_uploaded_file uploaded_file dest_path (Some f) fs)) dest_path
       = Some (concat (writes (snd (save_uploaded_file uploaded_file dest_path (Some f) fs))))
   \<and> take (length (concat (writes (snd (save_uploaded_file uploaded_file dest_path (Some f) fs)))))
          (drop (position (seek_start uploaded_file)) (content uploaded_file))
       = concat (writes (snd (save_uploaded_file uploaded_file dest_path (Some f) fs)))
   \<and> (fst (save_uploaded_file uploaded_file dest_path (Some f) fs) = Inr dest_path
        \<or> fst (save_uploaded_file uploaded_file dest_path (Some f) fs)
            = Inl Uncaught_BaseException)
   \<and> (fst (save_uploaded_file uploaded_file dest_path (Some f) fs) = Inr dest_path \<longrightarrow>
        (\<forall>call \<in> set (progress (snd (save_uploaded_file uploaded_file dest_path (Some f) fs))).
            outcome call \<noteq> Raises_BaseException)
        \<and> concat (writes (snd (save_uploaded_file uploaded_file dest_path (Some f) fs)))
            = drop (position (seek_start uploaded_file)) (content uploaded_file))
   \<and> (fst (save_uploaded_file uploaded_file dest_path (Some f) fs)
          = Inl Uncaught_BaseException \<longrightarrow>
        progress (snd (save_uploaded_file uploaded_file dest_path (Some f) fs)) \<noteq> []
        \<and> outcome (last (progress (snd (save_uploaded_file uploaded_file dest_path (Some f) fs))))
            = Raises_BaseException
        \<and> (\<forall>call \<in> set (butlast
                (progress (snd (save_uploaded_file uploaded_file dest_path (Some f) fs)))).
              outcome call \<noteq> Raises_BaseException))"
proof -
  have swallowed: "fst (save_uploaded_file uploaded_file dest_path (Some f) fs) = Inr dest_path
     \<and> files (snd (save_uploaded_file uploaded_file dest_path (Some f) fs))
         = fs(dest_path \<mapsto> drop (position (seek_start uploaded_file)) (content uploaded_file))
     \<and> files (snd (save_uploaded_file uploaded_file dest_path (Some f) fs))
         = files (snd (save_uploaded_file uploaded_file dest_path (Some progress_cb) fs))
     \<and> writes (snd (save_uploaded_file uploaded_file dest_path (Some f) fs))
         = writes (snd (save_uploaded_file uploaded_file dest_path (Some progress_cb) fs))
     \<and> written (snd (save_uploaded_file uploaded_file dest_path (Some f) fs))
         = length (drop (position (seek_start uploaded_file)) (content uploaded_file))"
    if "\<forall>w t. f w t \<noteq> Raises_BaseException"
  proof -
    from that have quiet: "never_escapes (Some f)"
      by (simp add: never_escapes_def)
    have "writes (snd (save_uploaded_file uploaded_file dest_path (Some f) fs))
         = writes (snd (save_uploaded_file uploaded_file dest_path (Some progress_cb) fs))"
      unfolding save_uploaded_file_snd
      by (rule write_chunks_writes_any_callback [OF quiet progress_cb_never_escapes]) simp
    moreover have "concat (writes (snd (save_uploaded_file uploaded_file dest_path (Some f) fs)))
         = drop (position (seek_start uploaded_file)) (content uploaded_file)"
      using save_uploaded_file_escape [of uploaded_file dest_path "Some f" fs]
        save_uploaded_file_returns [OF quiet, of uploaded_file dest_path fs]
      by simp
    ultimately show ?thesis
      using save_uploaded_file_returns [OF quiet, of uploaded_file dest_path fs]
        save_uploaded_file_files [OF quiet, of uploaded_file dest_path fs]
        save_uploaded_file_files [OF progress_cb_never_escapes, of uploaded_file dest_path fs]
        save_uploaded_file_progress [of uploaded_file dest_path "Some f" fs]
      by simp
  qed
  have calls: "length (progress (snd (save_uploaded_file uploaded_file dest_path (Some f) fs)))
       = length (writes (snd (save_uploaded_file uploaded_file dest_path (Some f) fs)))"
    "progress (snd (save_uploaded_file uploaded_file dest_path (Some f) fs))
       = progress_calls (Some f)
           (case size_attr uploaded_file of
              None \<Rightarrow> getbuffer_len uploaded_file
            | Some n \<Rightarrow> if n = 0 then getbuffer_len uploaded_file else Some n)
           (writes (snd (save_uploaded_file uploaded_file dest_path (Some f) fs)))"
    using save_uploaded_file_progress [of uploaded_file dest_path "Some f" fs]
    by (simp_all add: progress_calls_def total_size_def)
  from swallowed calls save_uploaded_file_dest [of uploaded_file dest_path "Some f" fs]
    save_uploaded_file_prefix [of uploaded_file dest_path "Some f" fs]
    save_uploaded_file_escape [of uploaded_file dest_path "Some f" fs]
  show ?thesis
    by blast
qed

theorem C10_callback_exception_swallowed_witness:
  "(\<forall>w t. failing_callback w t \<noteq> Raises_BaseException)
   \<and> failing_callback 2 (Some 5) = Raises_Exception
   \<and> save_uploaded_file short_read_source ''uploads/a.mp4'' (Some failing_callback) Map.empty
       = (Inr ''uploads/a.mp4'',
          \<lparr>files = [''uploads/a.mp4'' \<mapsto> ''abcde''], writes = [''ab'', ''c'', ''de''], written = 5,
            progress = [(2, Some 5, Raises_Exception), (3, Some 5, Raises_Exception),
                        (5, Some 5, Raises_Exception)]\<rparr>)
   \<and> fst (save_uploaded_file short_read_source ''uploads/a.mp4'' (Some exiting_callback) Map.empty)
       = Inl Uncaught_BaseException
   \<and> outcome (last (progress (snd (save_uploaded_file short_read_source ''uploads/a.mp4''
         (Some exiting_callback) Map.empty)))) = Raises_BaseException
   \<and> files (snd (save_uploaded_file short_read_source ''uploads/a.mp4''
         (Some exiting_callback) Map.empty)) ''uploads/a.mp4'' = Some ''abc''"
proof -
  have quiet: "\<forall>w t. failing_callback w t \<noteq> Raises_BaseException"
    by (simp add: failing_callback_def)
  with C10_callback_exception_swallowed
      [of failing_callback short_read_source "''uploads/a.mp4''" Map.empty]
  have "fst (save_uploaded_file short_read_source ''uploads/a.mp4'' (Some failing_callback)
          Map.empty) = Inr ''uploads/a.mp4''"
    by blast
  moreover have left: "fst (save_uploaded_file short_read_source ''uploads/a.mp4''
      (Some exiting_callback) Map.empty) = Inl Uncaught_BaseException"
    by (simp add: short_read_save_exiting)
  with C10_callback_exception_swallowed
      [of exiting_callback short_read_source "''uploads/a.mp4''" Map.empty]
  have "outcome (last (progress (snd (save_uploaded_file short_read_source ''uploads/a.mp4''
         (Some exiting_callback) Map.empty)))) = Raises_BaseException"
    by blast
  ultimately show ?thesis
    using quiet left by (simp add: short_read_save_failing short_read_save_exiting
        failing_callback_def)
qed

text \<open>
  C10 as stated fails: a callback that raises outside \<^verbatim>\<open>Exception\<close> once three bytes are
  written ends the copy of \<^verbatim>\<open>abcde\<close> with that exception, and the destination holds \<^verbatim>\<open>abc\<close>.
\<close>

theorem C10_other_exception_ends_copy:
  "exiting_callback 3 (Some 5) = Raises_BaseException
   \<and> content short_read_source = ''abcde''
   \<and> save_uploaded_file short_read_source ''uploads/a.mp4'' (Some exiting_callback) Map.empty
       = (Inl Uncaught_BaseException,
          \<lparr>files = [''uploads/a.mp4'' \<mapsto> ''abc''], writes = [''ab'', ''c''], written = 3,
            progress = [(2, Some 5, Returns), (3, Some 5, Raises_BaseException)]\<rparr>)"
  by (simp add: short_read_save_exiting)
     (simp add: exiting_callback_def short_read_source_def example_source_def)

subsection \<open>The destination of an upload\<close>

declare decimal.simps [simp del]

lemma decimal_example: "decimal 1700000000 = ''1700000000''"
  by (simp add: decimal.simps digit_char_def)

lemma last_component_example: "last_component ''uploads/video.mp4'' = ''video.mp4''"
  by (simp add: last_component_def)

lemma stem_suffix_example:
  "path_stem ''video.mp4'' = ''video''" "path_suffix ''video.mp4'' = ''.mp4''"
  by (simp_all add: path_stem_def path_suffix_def rfind_dot_def)

lemma upload_path_example: "upload_path ''video.mp4'' = ''uploads/video.mp4''"
  by (simp add: upload_path_def is_absolute_def path_join_def UPLOAD_DIR_def)

lemma upload_destination_example:
  "upload_destination colliding_uploads 1700000000 ''video.mp4'' = ''uploads/video_1700000000.mp4''"
  by (simp add: upload_destination_def Let_def upload_path_example last_component_example
        stem_suffix_example decimal_example colliding_uploads_def path_join_def UPLOAD_DIR_def)

lemma receive_upload_eq:
  "receive_upload fs now name src
     = (None,
        fs(upload_destination fs now name \<mapsto> drop (position (seek_start src)) (content src)),
        Some (upload_destination fs now name))"
proof -
  have "fst (save_uploaded_file src (upload_destination fs now name) (Some progress_cb) fs)
          = Inr (upload_destination fs now name)"
    using progress_cb_never_escapes by (rule save_uploaded_file_returns)
  moreover have "files (snd (save_uploaded_file src (upload_destination fs now name)
          (Some progress_cb) fs))
        = fs(upload_destination fs now name \<mapsto> drop (position (seek_start src)) (content src))"
    using progress_cb_never_escapes by (rule save_uploaded_file_files)
  moreover obtain result st
    where "save_uploaded_file src (upload_destination fs now name) (Some progress_cb) fs
             = (result, st)"
    by fastforce
  ultimately show ?thesis
    by (simp add: receive_upload_def Let_def)
qed

lemma stem_suffix: "path_stem name @ path_suffix name = name"
  by (simp add: path_stem_def path_suffix_def split: option.splits)

lemma last_component_plain:
  assumes "CHR ''/'' \<notin> set name"
  shows "last_component (path_join UPLOAD_DIR name) = name"
proof -
  have "takeWhile (\<lambda>c. c \<noteq> CHR ''/'') (rev name @ CHR ''/'' # rev UPLOAD_DIR)
      = rev name @ takeWhile (\<lambda>c. c \<noteq> CHR ''/'') (CHR ''/'' # rev UPLOAD_DIR)"
  proof (rule takeWhile_append2)
    fix c
    assume "c \<in> set (rev name)"
    with assms show "c \<noteq> CHR ''/''"
      by auto
  qed
  then have "takeWhile (\<lambda>c. c \<noteq> CHR ''/'') (rev name @ CHR ''/'' # rev UPLOAD_DIR) = rev name"
    by simp
  then show ?thesis
    by (simp add: last_component_def path_join_def)
qed

text \<open>
  For a plain file name that is taken, the destination is another path, and the upload
  leaves the file of that name as it is.
\<close>

lemma upload_destination_distinct:
  assumes "CHR ''/'' \<notin> set name" and "fs (path_join UPLOAD_DIR name) \<noteq> None"
  shows "upload_destination fs now name \<noteq> path_join UPLOAD_DIR name"
proof -
  have plain: "upload_path name = path_join UPLOAD_DIR name"
    using assms(1) by (cases name) (auto simp add: upload_path_def is_absolute_def)
  have "path_stem name @ ''_'' @ decimal now @ path_suffix name \<noteq> name"
  proof
    assume "path_stem name @ ''_'' @ decimal now @ path_suffix name = name"
    then have "length (path_stem name @ ''_'' @ decimal now @ path_suffix name)
                 = length (path_stem name @ path_suffix name)"
      by (simp only: stem_suffix)
    then show False
      by simp
  qed
  with assms show ?thesis
    by (simp add: upload_destination_def plain last_component_plain) (simp add: path_join_def)
qed

lemma receive_upload_keeps_original:
  assumes "CHR ''/'' \<notin> set name" and "fs (path_join UPLOAD_DIR name) = Some old"
  shows "fst (snd (receive_upload fs now name src)) (path_join UPLOAD_DIR name) = Some old"
proof -
  from assms have "upload_destination fs now name \<noteq> path_join UPLOAD_DIR name"
    by (intro upload_destination_distinct) simp_all
  with assms show ?thesis
    by (simp add: receive_upload_eq)
qed

text \<open>
  C7. When a file of the upload's name exists, the destination is a new name, the stem
  followed by \<^verbatim>\<open>_\<close>, the time in seconds and the suffix; it differs from the upload's name
  and the file of that name is kept (the two lemmas above). The new name is not checked: with
  \<^verbatim>\<open>uploads/video.mp4\<close> and \<^verbatim>\<open>uploads/video_1700000000.mp4\<close> present, an upload named
  \<^verbatim>\<open>video.mp4\<close> at time 1700000000 is written over \<^verbatim>\<open>uploads/video_1700000000.mp4\<close>, whose
  content is lost.
\<close>

theorem C7_derived_name_overwrites:
  "colliding_uploads ''uploads/video.mp4'' = Some ''first''
   \<and> colliding_uploads ''uploads/video_1700000000.mp4'' = Some ''second''
   \<and> upload_destination colliding_uploads 1700000000 ''video.mp4''
       = ''uploads/video_1700000000.mp4''
   \<and> receive_upload colliding_uploads 1700000000 ''video.mp4'' third_upload
       = (None,
          [''uploads/video.mp4'' \<mapsto> ''first'', ''uploads/video_1700000000.mp4'' \<mapsto> ''third''],
          Some ''uploads/video_1700000000.mp4'')"
proof -
  have "drop (position (seek_start third_upload)) (content third_upload) = ''third''"
    by (simp add: third_upload_def seek_start_def)
  then have "receive_upload colliding_uploads 1700000000 ''video.mp4'' third_upload
       = (None, colliding_uploads(''uploads/video_1700000000.mp4'' \<mapsto> ''third''),
          Some ''uploads/video_1700000000.mp4'')"
    by (simp only: receive_upload_eq upload_destination_example)
  moreover have "colliding_uploads(''uploads/video_1700000000.mp4'' \<mapsto> ''third'')
       = [''uploads/video.mp4'' \<mapsto> ''first'', ''uploads/video_1700000000.mp4'' \<mapsto> ''third'']"
    by (simp add: colliding_uploads_def)
  moreover have "colliding_uploads ''uploads/video.mp4'' = Some ''first''"
    "colliding_uploads ''uploads/video_1700000000.mp4'' = Some ''second''"
    by (simp_all add: colliding_uploads_def)
  ultimately show ?thesis
    by (simp only: upload_destination_example simp_thms)
qed

subsection \<open>Start requests\<close>

text \<open>
  C3, as the code has it. In every session state whose stored process is running, a start
  request raises nothing, spawns no process and leaves the session state, with the stored
  handle, and the log as they are; it only shows one message. That message is the error
  asking for a video when no video is chosen; else the error asking for the stream key when
  the key is empty; else the error that the encoder is not available when the probe fails;
  else the warning that a process is already running.
\<close>

theorem C3_start_while_running:
  assumes "get_ffmpeg_proc (session r) = Some proc" and "poll_is_None e proc"
  shows "start_clicked e video_path stream_key is_shorts r
     = (None,
        r\<lparr>shown := shown r @
          [if video_path = None \<or> video_path = Some []
           then St_error ''Pilih video atau upload dulu sebelum memulai streaming.''
           else if stream_key = []
           then St_error ''Masukkan Stream Key YouTube.''
           else if \<not> ffmpeg_available e
           then St_error ''ffmpeg tidak tersedia. Install ffmpeg dulu.''
           else St_warning
                  ''Proses ffmpeg sedang berjalan. Hentikan dulu sebelum memulai baru.'']\<rparr>)
   \<and> session (snd (start_clicked e video_path stream_key is_shorts r)) = session r
   \<and> os_calls (snd (start_clicked e video_path stream_key is_shorts r)) = os_calls r
   \<and> logs (snd (start_clicked e video_path stream_key is_shorts r)) = logs r"
  using assms by (simp add: start_clicked_def show_message_def already_running_warning_def)

theorem C3_start_while_running_witness:
  "get_ffmpeg_proc (session (begin_run live_session)) = Some 7
   \<and> poll_is_None example_environment 7
   \<and> start_clicked example_environment (Some ''uploads/video.mp4'') ''abc123'' False
        (begin_run live_session)
      = (None,
         \<lparr>session = live_session, logs = [''[11:59:59] frame=1''], clock_reads = 0,
          shown = [St_warning
             ''Proses ffmpeg sedang berjalan. Hentikan dulu sebelum memulai baru.''],
          os_calls = []\<rparr>)
   \<and> start_clicked example_environment None ''abc123'' False (begin_run live_session)
      = (None,
         \<lparr>session = live_session, logs = [''[11:59:59] frame=1''], clock_reads = 0,
          shown = [St_error ''Pilih video atau upload dulu sebelum memulai streaming.''],
          os_calls = []\<rparr>)"
proof -
  have live: "get_ffmpeg_proc (session (begin_run live_session)) = Some 7"
    "poll_is_None example_environment 7"
    by (simp_all add: begin_run_def live_session_def get_ffmpeg_proc_def example_environment_def)
  have "ffmpeg_available example_environment"
    by (simp add: example_environment_def)
  with C3_start_while_running [OF live, of "Some ''uploads/video.mp4''" "''abc123''" False]
    C3_start_while_running [OF live, of None "''abc123''" False] live
  show ?thesis
    by (simp add: begin_run_def live_session_def)
qed

text \<open>
  C3 as stated fails: with process 7 running, a start request with an empty stream key is
  answered with the error about the key, and one made while the encoder probe fails with the
  error about the missing encoder, not with the warning that a process is running.
\<close>

theorem C3_other_rejections_first:
  "get_ffmpeg_proc (session (begin_run live_session)) = Some 7
   \<and> poll_is_None example_environment 7
   \<and> shown (snd (start_clicked example_environment (Some ''uploads/video.mp4'') [] False
        (begin_run live_session)))
      = [St_error ''Masukkan Stream Key YouTube.'']
   \<and> poll_is_None (example_environment\<lparr>ffmpeg_available := False\<rparr>) 7
   \<and> shown (snd (start_clicked (example_environment\<lparr>ffmpeg_available := False\<rparr>)
        (Some ''uploads/video.mp4'') ''abc123'' False (begin_run live_session)))
      = [St_error ''ffmpeg tidak tersedia. Install ffmpeg dulu.'']
   \<and> St_error ''Masukkan Stream Key YouTube.'' \<noteq> already_running_warning
   \<and> St_error ''ffmpeg tidak tersedia. Install ffmpeg dulu.'' \<noteq> already_running_warning"
  by (simp add: start_clicked_def show_message_def begin_run_def live_session_def
        get_ffmpeg_proc_def example_environment_def already_running_warning_def)

text \<open>
  What \<^verbatim>\<open>start_ffmpeg\<close> does when \<^verbatim>\<open>Popen\<close> raises \<^verbatim>\<open>FileNotFoundError\<close>: it has logged the
  command, logs the explanation and returns \<^verbatim>\<open>None\<close>.
\<close>

lemma start_ffmpeg_missing_binary:
  assumes "popen e = FileNotFoundError"
  shows "start_ffmpeg e video_path stream_key is_shorts r
     = (Inr None,
        r\<lparr>logs := logs r @
              [log_line (clock e (clock_reads r))
                 (''Menjalankan ffmpeg: '' @ join_sp (ffmpeg_cmd video_path stream_key is_shorts)),
               log_line (clock e (Suc (clock_reads r))) missing_binary_message],
           clock_reads := Suc (Suc (clock_reads r)),
           session := (session r)\<lparr>session_logs := Some (last_n 200 (logs r @
              [log_line (clock e (clock_reads r))
                 (''Menjalankan ffmpeg: '' @ join_sp (ffmpeg_cmd video_path stream_key is_shorts)),
               log_line (clock e (Suc (clock_reads r))) missing_binary_message]))\<rparr>,
           os_calls := os_calls r @ [Popen (ffmpeg_cmd video_path stream_key is_shorts)]\<rparr>)"
  using assms by (simp add: start_ffmpeg_def append_log_def os_call_def Let_def)

lemma join_sp_example:
  "join_sp (ffmpeg_cmd ''uploads/video.mp4'' ''abc123'' False)
     = ''ffmpeg -re -stream_loop -1 -i uploads/video.mp4 -c:v libx264 -preset veryfast -b:v 2500k -maxrate 2500k -bufsize 5000k -g 60 -keyint_min 60 -c:a aac -b:a 128k -f flv rtmp://a.rtmp.youtube.com/live2/abc123''"
  by (simp add: ffmpeg_cmd_def scale_arg_def output_url_def)

lemma start_missing_binary_example:
  "start_clicked example_environment (Some ''uploads/video.mp4'') ''abc123'' False
     (begin_run fresh_session)
   = (None,
      \<lparr>session = \<lparr>session_logs = Some
           [''[12:00:00] Memulai streaming: uploads/video.mp4'',
            ''[12:00:00] Menjalankan ffmpeg: ffmpeg -re -stream_loop -1 -i uploads/video.mp4 -c:v libx264 -preset veryfast -b:v 2500k -maxrate 2500k -bufsize 5000k -g 60 -keyint_min 60 -c:a aac -b:a 128k -f flv rtmp://a.rtmp.youtube.com/live2/abc123'',
            ''[12:00:00] Error: ffmpeg tidak ditemukan. Pastikan ffmpeg terinstall dan ada di PATH.''],
          session_ffmpeg_proc = Key_absent\<rparr>,
       logs =
           [''[12:00:00] Memulai streaming: uploads/video.mp4'',
            ''[12:00:00] Menjalankan ffmpeg: ffmpeg -re -stream_loop -1 -i uploads/video.mp4 -c:v libx264 -preset veryfast -b:v 2500k -maxrate 2500k -bufsize 5000k -g 60 -keyint_min 60 -c:a aac -b:a 128k -f flv rtmp://a.rtmp.youtube.com/live2/abc123'',
            ''[12:00:00] Error: ffmpeg tidak ditemukan. Pastikan ffmpeg terinstall dan ada di PATH.''],
       clock_reads = 3,
       shown = [St_error ''Gagal menjalankan ffmpeg. Periksa log.''],
       os_calls = [Popen (ffmpeg_cmd ''uploads/video.mp4'' ''abc123'' False)]\<rparr>)"
  by (simp add: start_clicked_def start_new_job_def start_ffmpeg_def append_log_def os_call_def
        show_message_def Let_def begin_run_def fresh_session_def example_environment_def
        get_ffmpeg_proc_def join_sp_example log_line_def last_n_def missing_binary_message_def)

text \<open>
  C8, as the code has it. For a start request with a video and a stream key, when the probe
  finds the encoder, no stored process is running and \<^verbatim>\<open>Popen\<close> then raises
  \<^verbatim>\<open>FileNotFoundError\<close>: \<^verbatim>\<open>start_ffmpeg\<close> returns \<^verbatim>\<open>None\<close>, the stored handle is left as it
  was, the user is shown an error, and the log gains three lines in this order: the start of
  streaming, the command, and one explanation of the missing binary. When the probe itself
  fails the request is refused with an error before any spawn, and nothing is logged.
\<close>

theorem C8_missing_binary:
  "(video_path \<noteq> [] \<and> stream_key \<noteq> [] \<and> ffmpeg_available e \<and> popen e = FileNotFoundError
      \<and> (get_ffmpeg_proc (session r) = None
           \<or> (\<exists>proc. get_ffmpeg_proc (session r) = Some proc \<and> \<not> poll_is_None e proc)) \<longrightarrow>
      fst (start_ffmpeg e video_path stream_key is_shorts
             (append_log e (''Memulai streaming: '' @ video_path) r)) = Inr None
      \<and> fst (start_clicked e (Some video_path) stream_key is_shorts r) = None
      \<and> session_ffmpeg_proc (session (snd (start_clicked e (Some video_path) stream_key is_shorts r)))
          = session_ffmpeg_proc (session r)
      \<and> logs (snd (start_clicked e (Some video_path) stream_key is_shorts r))
          = logs r @
            [log_line (clock e (clock_reads r)) (''Memulai streaming: '' @ video_path),
             log_line (clock e (clock_reads r + 1))
               (''Menjalankan ffmpeg: '' @ join_sp (ffmpeg_cmd video_path stream_key is_shorts)),
             log_line (clock e (clock_reads r + 2)) missing_binary_message]
      \<and> session_logs (session (snd (start_clicked e (Some video_path) stream_key is_shorts r)))
          = Some (last_n 200 (logs (snd (start_clicked e (Some video_path) stream_key is_shorts r))))
      \<and> shown (snd (start_clicked e (Some video_path) stream_key is_shorts r))
          = shown r @ [St_error ''Gagal menjalankan ffmpeg. Periksa log.'']
      \<and> os_calls (snd (start_clicked e (Some video_path) stream_key is_shorts r))
          = os_calls r @ [Popen (ffmpeg_cmd video_path stream_key is_shorts)])
   \<and> (video_path \<noteq> [] \<and> stream_key \<noteq> [] \<and> \<not> ffmpeg_available e \<longrightarrow>
        start_clicked e (Some video_path) stream_key is_shorts r
          = (None, show_message (St_error ''ffmpeg tidak tersedia. Install ffmpeg dulu.'') r))"
proof -
  have spawn: "start_clicked e (Some video_path) stream_key is_shorts r
        = start_new_job e video_path stream_key is_shorts r"
    if "video_path \<noteq> []" "stream_key \<noteq> []" "ffmpeg_available e"
      "get_ffmpeg_proc (session r) = None
         \<or> (\<exists>proc. get_ffmpeg_proc (session r) = Some proc \<and> \<not> poll_is_None e proc)"
    using that by (auto simp add: start_clicked_def)
  have job: "start_new_job e video_path stream_key is_shorts r
        = (None, show_message (St_error ''Gagal menjalankan ffmpeg. Periksa log.'')
             (snd (start_ffmpeg e video_path stream_key is_shorts
                (append_log e (''Memulai streaming: '' @ video_path) r))))"
    if "popen e = FileNotFoundError"
    using that by (simp add: start_new_job_def Let_def start_ffmpeg_missing_binary)
  show ?thesis
  proof (intro conjI impI)
    assume "video_path \<noteq> [] \<and> stream_key \<noteq> [] \<and> \<not> ffmpeg_available e"
    then show "start_clicked e (Some video_path) stream_key is_shorts r
          = (None, show_message (St_error ''ffmpeg tidak tersedia. Install ffmpeg dulu.'') r)"
      by (simp add: start_clicked_def)
  next
    assume a: "video_path \<noteq> [] \<and> stream_key \<noteq> [] \<and> ffmpeg_available e
      \<and> popen e = FileNotFoundError
      \<and> (get_ffmpeg_proc (session r) = None
           \<or> (\<exists>proc. get_ffmpeg_proc (session r) = Some proc \<and> \<not> poll_is_None e proc))"
    then have eq: "start_clicked e (Some video_path) stream_key is_shorts r
        = (None, show_message (St_error ''Gagal menjalankan ffmpeg. Periksa log.'')
             (snd (start_ffmpeg e video_path stream_key is_shorts
                (append_log e (''Memulai streaming: '' @ video_path) r))))"
      using spawn job by simp
    from a have fnf: "popen e = FileNotFoundError" by simp
    show "fst (start_ffmpeg e video_path stream_key is_shorts
             (append_log e (''Memulai streaming: '' @ video_path) r)) = Inr None"
      by (simp add: start_ffmpeg_missing_binary [OF fnf])
    show "fst (start_clicked e (Some video_path) stream_key is_shorts r) = None"
      by (simp add: eq)
    show "session_ffmpeg_proc (session (snd (start_clicked e (Some video_path) stream_key is_shorts r)))
          = session_ffmpeg_proc (session r)"
      by (simp add: eq start_ffmpeg_missing_binary [OF fnf] show_message_def append_log_def Let_def)
    show "logs (snd (start_clicked e (Some video_path) stream_key is_shorts r))
          = logs r @
            [log_line (clock e (clock_reads r)) (''Memulai streaming: '' @ video_path),
             log_line (clock e (clock_reads r + 1))
               (''Menjalankan ffmpeg: '' @ join_sp (ffmpeg_cmd video_path stream_key is_shorts)),
             log_line (clock e (clock_reads r + 2)) missing_binary_message]"
      by (simp add: eq start_ffmpeg_missing_binary [OF fnf] show_message_def append_log_def Let_def)
    show "session_logs (session (snd (start_clicked e (Some video_path) stream_key is_shorts r)))
          = Some (last_n 200 (logs (snd (start_clicked e (Some video_path) stream_key is_shorts r))))"
      by (simp add: eq start_ffmpeg_missing_binary [OF fnf] show_message_def append_log_def Let_def)
    show "shown (snd (start_clicked e (Some video_path) stream_key is_shorts r))
          = shown r @ [St_error ''Gagal menjalankan ffmpeg. Periksa log.'']"
      by (simp add: eq start_ffmpeg_missing_binary [OF fnf] show_message_def append_log_def Let_def)
    show "os_calls (snd (start_clicked e (Some video_path) stream_key is_shorts r))
          = os_calls r @ [Popen (ffmpeg_cmd video_path stream_key is_shorts)]"
      by (simp add: eq start_ffmpeg_missing_binary [OF fnf] show_message_def append_log_def Let_def)
  qed
qed

theorem C8_missing_binary_witness:
  "ffmpeg_available example_environment \<and> popen example_environment = FileNotFoundError
   \<and> get_ffmpeg_proc (session (begin_run fresh_session)) = None
   \<and> fst (start_clicked example_environment (Some ''uploads/video.mp4'') ''abc123'' False
           (begin_run fresh_session)) = None
   \<and> session_ffmpeg_proc (session (snd (start_clicked example_environment
         (Some ''uploads/video.mp4'') ''abc123'' False (begin_run fresh_session)))) = Key_absent
   \<and> session_logs (session (snd (start_clicked example_environment
         (Some ''uploads/video.mp4'') ''abc123'' False (begin_run fresh_session))))
       = Some [''[12:00:00] Memulai streaming: uploads/video.mp4'',
               ''[12:00:00] Menjalankan ffmpeg: ffmpeg -re -stream_loop -1 -i uploads/video.mp4 -c:v libx264 -preset veryfast -b:v 2500k -maxrate 2500k -bufsize 5000k -g 60 -keyint_min 60 -c:a aac -b:a 128k -f flv rtmp://a.rtmp.youtube.com/live2/abc123'',
               ''[12:00:00] Error: ffmpeg tidak ditemukan. Pastikan ffmpeg terinstall dan ada di PATH.'']"
proof -
  have hyps: "''uploads/video.mp4'' \<noteq> []" "''abc123'' \<noteq> []"
    "ffmpeg_available example_environment" "popen example_environment = FileNotFoundError"
    "get_ffmpeg_proc (session (begin_run fresh_session)) = None"
    by (simp_all add: example_environment_def begin_run_def fresh_session_def get_ffmpeg_proc_def)
  with C8_missing_binary [of "''uploads/video.mp4''" "''abc123''" example_environment
      "begin_run fresh_session" False]
  have "fst (start_clicked example_environment (Some ''uploads/video.mp4'') ''abc123'' False
           (begin_run fresh_session)) = None"
    by blast
  with hyps show ?thesis
    by (simp add: start_missing_binary_example)
qed

text \<open>
  C8 as stated fails: when the encoder is missing and the probe says so, the start request is
  refused and the log stays as it was, here absent; and when the spawn is reached and fails,
  the log gains three lines, not one.
\<close>

theorem C8_probe_rejects_without_log:
  "\<not> ffmpeg_available (example_environment\<lparr>ffmpeg_available := False\<rparr>)
   \<and> popen (example_environment\<lparr>ffmpeg_available := False\<rparr>) = FileNotFoundError
   \<and> start_clicked (example_environment\<lparr>ffmpeg_available := False\<rparr>)
        (Some ''uploads/video.mp4'') ''abc123'' False (begin_run fresh_session)
      = (None,
         \<lparr>session = fresh_session, logs = [], clock_reads = 0,
          shown = [St_error ''ffmpeg tidak tersedia. Install ffmpeg dulu.''], os_calls = []\<rparr>)
   \<and> session_logs fresh_session = None
   \<and> popen example_environment = FileNotFoundError
   \<and> length (logs (snd (start_clicked example_environment (Some ''uploads/video.mp4'') ''abc123''
        False (begin_run fresh_session)))) = length (logs (begin_run fresh_session)) + 3"
  by (simp add: start_missing_binary_example)
     (simp add: start_clicked_def show_message_def begin_run_def fresh_session_def
        example_environment_def)


subsection \<open>Stop requests\<close>

text \<open>
  C5. For every stop request on a running process, the first call is \<^verbatim>\<open>terminate\<close>; unless
  that raises, \<^verbatim>\<open>wait\<close> follows with a timeout of 5 seconds; \<^verbatim>\<open>kill\<close> follows exactly when the
  wait raises, that is when the process has not exited in time. In each of these outcomes,
  and when \<^verbatim>\<open>terminate\<close> or \<^verbatim>\<open>kill\<close> raises, the stored handle is \<^verbatim>\<open>None\<close> afterwards.
\<close>

theorem C5_stop_live_process:
  assumes "get_ffmpeg_proc (session r) = Some proc" and "poll_is_None e proc"
  shows "os_calls (stop_clicked e r) = os_calls r @
       (case terminate_raises e of
          Some exn \<Rightarrow> [Terminate proc]
        | None \<Rightarrow> if wait_raises e then [Terminate proc, Wait proc 5, Kill proc]
                  else [Terminate proc, Wait proc 5])
   \<and> session_ffmpeg_proc (session (stop_clicked e r)) = Value None
   \<and> get_ffmpeg_proc (session (stop_clicked e r)) = None
   \<and> shown (stop_clicked e r) = shown r"
  using assms
  by (simp add: stop_clicked_def terminate_proc_def append_log_def os_call_def Let_def
        get_ffmpeg_proc_def split: option.splits)

theorem C5_stop_live_process_witness:
  "get_ffmpeg_proc (session (begin_run live_session)) = Some 7
   \<and> poll_is_None example_environment 7
   \<and> os_calls (stop_clicked example_environment (begin_run live_session))
       = [Terminate 7, Wait 7 5, Kill 7]
   \<and> session_ffmpeg_proc (session (stop_clicked example_environment (begin_run live_session)))
       = Value None
   \<and> os_calls (stop_clicked (example_environment\<lparr>terminate_raises := Some ''Permission denied''\<rparr>)
         (begin_run live_session)) = [Terminate 7]
   \<and> session_ffmpeg_proc (session (stop_clicked
         (example_environment\<lparr>terminate_raises := Some ''Permission denied''\<rparr>)
         (begin_run live_session))) = Value None"
proof -
  have live: "get_ffmpeg_proc (session (begin_run live_session)) = Some 7"
    "poll_is_None example_environment 7"
    "poll_is_None (example_environment\<lparr>terminate_raises := Some ''Permission denied''\<rparr>) 7"
    by (simp_all add: begin_run_def live_session_def get_ffmpeg_proc_def example_environment_def)
  have env: "terminate_raises example_environment = None" "wait_raises example_environment"
    "os_calls (begin_run live_session) = []"
    by (simp_all add: example_environment_def begin_run_def)
  from C5_stop_live_process [OF live(1) live(2)] C5_stop_live_process [OF live(1) live(3)]
    live env
  show ?thesis
    by simp
qed

text \<open>
  C6. When no handle is stored, or the stored process has exited, a stop request only tells
  the user that no process is active: the session state, the log and the calls on processes
  are as before, and nothing is raised.
\<close>

theorem C6_stop_without_live_process:
  assumes "get_ffmpeg_proc (session r) = None
     \<or> (\<exists>proc. get_ffmpeg_proc (session r) = Some proc \<and> \<not> poll_is_None e proc)"
  shows "stop_clicked e r = r\<lparr>shown := shown r @ [nothing_active_info]\<rparr>"
  using assms by (auto simp add: stop_clicked_def show_message_def)

theorem C6_stop_without_live_process_witness:
  "get_ffmpeg_proc (session (begin_run fresh_session)) = None
   \<and> stop_clicked example_environment (begin_run fresh_session)
       = \<lparr>session = fresh_session, logs = [], clock_reads = 0,
          shown = [St_info ''Tidak ada proses ffmpeg aktif.''], os_calls = []\<rparr>
   \<and> get_ffmpeg_proc (session (begin_run exited_session)) = Some 3
   \<and> \<not> poll_is_None example_environment 3
   \<and> stop_clicked example_environment (begin_run exited_session)
       = \<lparr>session = exited_session, logs = [''[11:59:59] frame=1''], clock_reads = 0,
          shown = [St_info ''Tidak ada proses ffmpeg aktif.''], os_calls = []\<rparr>"
proof -
  have none: "get_ffmpeg_proc (session (begin_run fresh_session)) = None"
    by (simp add: begin_run_def fresh_session_def get_ffmpeg_proc_def)
  have exited: "get_ffmpeg_proc (session (begin_run exited_session)) = Some 3"
    "\<not> poll_is_None example_environment 3"
    by (simp_all add: begin_run_def exited_session_def get_ffmpeg_proc_def example_environment_def)
  have "stop_clicked example_environment (begin_run fresh_session)
      = (begin_run fresh_session)\<lparr>shown := shown (begin_run fresh_session) @ [nothing_active_info]\<rparr>"
    using none by (intro C6_stop_without_live_process) simp
  moreover have "stop_clicked example_environment (begin_run exited_session)
      = (begin_run exited_session)\<lparr>shown := shown (begin_run exited_session) @ [nothing_active_info]\<rparr>"
    using exited by (intro C6_stop_without_live_process) simp
  ultimately show ?thesis
    using none exited
    by (simp add: begin_run_def fresh_session_def exited_session_def nothing_active_info_def)
qed


subsection \<open>The settings file\<close>

text \<open>
  C9, as the code has it. If the settings file exists, startup changes nothing and makes no
  call on the filesystem. If it is absent, startup makes the directory and writes the file
  once. When both calls succeed the file holds the settings. When making the directory or
  opening the file raises, the file is still absent. When the write raises after the file
  has been opened, the file is left with the part of the settings that reached it, possibly
  nothing. Each failure is printed and startup goes on. Once the file exists, complete or
  not, a later startup changes nothing. No other file changes, and there is never more than
  one write.
\<close>

theorem C9_settings_written_only_if_absent:
  "(fs CONFIG_PATH \<noteq> None \<longrightarrow> ensure_config mkdir_raises write_text_raises fs = (fs, [], []))
   \<and> (fs CONFIG_PATH = None \<longrightarrow>
        ensure_config None None fs
          = (fs(CONFIG_PATH \<mapsto> config_text),
             [Mkdir CONFIG_DIR, Write_text CONFIG_PATH config_text],
             [''Created Streamlit config at: '' @ CONFIG_PATH])
        \<and> ensure_config mkdir_raises write_text_raises (fst (ensure_config None None fs))
          = (fs(CONFIG_PATH \<mapsto> config_text), [], []))
   \<and> (fs CONFIG_PATH = None \<longrightarrow>
        ensure_config (Some exn) write_text_raises fs
          = (fs, [Mkdir CONFIG_DIR], [''Gagal membuat .streamlit/config.toml: '' @ exn])
        \<and> ensure_config None (Some (Open_raises exn)) fs
          = (fs, [Mkdir CONFIG_DIR, Write_text CONFIG_PATH config_text],
             [''Gagal membuat .streamlit/config.toml: '' @ exn]))
   \<and> (fs CONFIG_PATH = None \<longrightarrow>
        ensure_config None (Some (Write_raises exn reached)) fs
          = (fs(CONFIG_PATH \<mapsto> take reached config_text),
             [Mkdir CONFIG_DIR, Write_text CONFIG_PATH config_text],
             [''Gagal membuat .streamlit/config.toml: '' @ exn])
        \<and> ensure_config mkdir_raises write_text_raises
             (fst (ensure_config None (Some (Write_raises exn reached)) fs))
          = (fs(CONFIG_PATH \<mapsto> take reached config_text), [], []))
   \<and> (\<forall>p. p \<noteq> CONFIG_PATH \<longrightarrow> fst (ensure_config mkdir_raises write_text_raises fs) p = fs p)
   \<and> length (filter (\<lambda>c. case c of Write_text p b \<Rightarrow> True | Mkdir d \<Rightarrow> False)
               (fst (snd (ensure_config mkdir_raises write_text_raises fs)))) \<le> 1"
  by (auto simp add: ensure_config_def split: option.splits write_failure.splits)

theorem C9_settings_written_only_if_absent_witness:
  "(Map.empty :: filesystem) CONFIG_PATH = None
   \<and> fst (ensure_config None None Map.empty) = [CONFIG_PATH \<mapsto> config_text]
   \<and> fst (snd (ensure_config None None Map.empty))
       = [Mkdir ''.streamlit'', Write_text ''.streamlit/config.toml'' config_text]
   \<and> [CONFIG_PATH \<mapsto> ''[server]''] CONFIG_PATH \<noteq> None
   \<and> ensure_config None None [CONFIG_PATH \<mapsto> ''[server]'']
       = ([CONFIG_PATH \<mapsto> ''[server]''], [], [])
   \<and> fst (ensure_config None (Some (Open_raises ''Read-only file system'')) Map.empty)
       = Map.empty
   \<and> fst (ensure_config None (Some (Write_raises ''No space left on device'' 0)) Map.empty)
       = [CONFIG_PATH \<mapsto> []]
   \<and> ensure_config None None
        (fst (ensure_config None (Some (Write_raises ''No space left on device'' 0)) Map.empty))
       = ([CONFIG_PATH \<mapsto> []], [], [])"
proof -
  have absent: "(Map.empty :: filesystem) CONFIG_PATH = None"
    and present: "[CONFIG_PATH \<mapsto> ''[server]''] CONFIG_PATH \<noteq> None"
    by simp_all
  note thm1 = C9_settings_written_only_if_absent [of Map.empty None None]
    and thm2 = C9_settings_written_only_if_absent [of "[CONFIG_PATH \<mapsto> ''[server]'']" None None]
    and thm3 = C9_settings_written_only_if_absent
      [of Map.empty None None "''Read-only file system''"]
    and thm4 = C9_settings_written_only_if_absent
      [of Map.empty None None "''No space left on device''" 0]
  from thm1 absent have "ensure_config None None Map.empty
          = ([CONFIG_PATH \<mapsto> config_text],
             [Mkdir CONFIG_DIR, Write_text CONFIG_PATH config_text],
             [''Created Streamlit config at: '' @ CONFIG_PATH])"
    by blast
  moreover from thm2 present have "ensure_config None None [CONFIG_PATH \<mapsto> ''[server]'']
       = ([CONFIG_PATH \<mapsto> ''[server]''], [], [])"
    by blast
  moreover from thm3 absent
  have "ensure_config None (Some (Open_raises ''Read-only file system'')) Map.empty
      = (Map.empty, [Mkdir CONFIG_DIR, Write_text CONFIG_PATH config_text],
         [''Gagal membuat .streamlit/config.toml: '' @ ''Read-only file system''])"
    by blast
  moreover from thm4 absent
  have "ensure_config None (Some (Write_raises ''No space left on device'' 0)) Map.empty
      = ([CONFIG_PATH \<mapsto> take 0 config_text],
         [Mkdir CONFIG_DIR, Write_text CONFIG_PATH config_text],
         [''Gagal membuat .streamlit/config.toml: '' @ ''No space left on device''])"
    "ensure_config None None
        (fst (ensure_config None (Some (Write_raises ''No space left on device'' 0)) Map.empty))
      = ([CONFIG_PATH \<mapsto> take 0 config_text], [], [])"
    by blast+
  ultimately show ?thesis
    by (simp add: CONFIG_PATH_def CONFIG_DIR_def path_join_def)
qed

text \<open>
  C9 as stated fails: with the settings file absent and a directory that cannot be made,
  startup leaves the file absent.
\<close>

theorem C9_failed_write_leaves_file_absent:
  "(Map.empty :: filesystem) CONFIG_PATH = None
   \<and> ensure_config (Some ''Permission denied'') None Map.empty
       = (Map.empty, [Mkdir CONFIG_DIR],
          [''Gagal membuat .streamlit/config.toml: Permission denied''])
   \<and> fst (ensure_config (Some ''Permission denied'') None Map.empty) CONFIG_PATH = None"
  by (simp add: ensure_config_def)

end
